theory Spec2Isabelle
  imports Main "HOL-Library.Sublist"
begin

section \<open>Conversation memory\<close>

text \<open>
  \<^verbatim>\<open>session_memory = {}\<close> maps a chat identifier to a \<^verbatim>\<open>deque(maxlen=10)\<close> of
  \<^verbatim>\<open>{"role": ..., "content": ...}\<close> dictionaries. Text is a list of characters whose code
  points lie below 256.
\<close>

record turn =
  role :: string
  content :: string

type_synonym chat_id = int

type_synonym memory = "chat_id \<rightharpoonup> turn list"

text \<open>
  \<^verbatim>\<open>deque.append\<close> on a bounded deque: the element is added on the right and, when the
  length then exceeds \<^verbatim>\<open>maxlen\<close>, one element is removed on the left.
\<close>

definition deque_append :: "nat \<Rightarrow> 'a list \<Rightarrow> 'a \<Rightarrow> 'a list" where
  "deque_append maxlen d x =
     (let d' = d @ [x] in if maxlen < length d' then tl d' else d')"

definition update_memory :: "memory \<Rightarrow> chat_id \<Rightarrow> string \<Rightarrow> string \<Rightarrow> memory" where
  "update_memory mem cid r c =
     mem(cid \<mapsto> deque_append 10 (case mem cid of None \<Rightarrow> [] | Some d \<Rightarrow> d)
                   \<lparr>role = r, content = c\<rparr>)"

definition get_memory :: "memory \<Rightarrow> chat_id \<Rightarrow> turn list" where
  "get_memory mem cid = (case mem cid of None \<Rightarrow> [] | Some d \<Rightarrow> d)"

text \<open>A sequence of calls of \<^verbatim>\<open>update_memory\<close>, each with its chat, role and content.\<close>

fun update_memory_all :: "memory \<Rightarrow> (chat_id \<times> string \<times> string) list \<Rightarrow> memory" where
  "update_memory_all mem [] = mem"
| "update_memory_all mem ((cid, r, c) # calls) =
     update_memory_all (update_memory mem cid r c) calls"

text \<open>The turns a sequence of calls addresses to one chat, in call order.\<close>

fun turns_for :: "chat_id \<Rightarrow> (chat_id \<times> string \<times> string) list \<Rightarrow> turn list" where
  "turns_for cid [] = []"
| "turns_for cid ((cid', r, c) # calls) =
     (if cid' = cid then \<lparr>role = r, content = c\<rparr> # turns_for cid calls
      else turns_for cid calls)"

definition newest :: "nat \<Rightarrow> 'a list \<Rightarrow> 'a list" where
  "newest n xs = drop (length xs - n) xs"

section \<open>Text operations of the host language\<close>

text \<open>
  \<^verbatim>\<open>str.isspace\<close> on code points below 256; \<^verbatim>\<open>strip\<close>, \<^verbatim>\<open>split\<close> without argument
  and \<^verbatim>\<open>\s\<close> in a pattern use the same set.
\<close>

definition is_space :: "char \<Rightarrow> bool" where
  "is_space c =
     (c \<in> set [CHR 0x09, CHR 0x0A, CHR 0x0B, CHR 0x0C, CHR 0x0D, CHR 0x1C, CHR 0x1D, CHR 0x1E,
                CHR 0x1F, CHR 0x20, CHR 0x85, CHR 0xA0])"

definition strip :: "string \<Rightarrow> string" where
  "strip s = rev (dropWhile is_space (rev (dropWhile is_space s)))"

text \<open>\<^verbatim>\<open>s.strip(chars)\<close> removes the given characters from both ends.\<close>

definition strip_chars :: "string \<Rightarrow> string \<Rightarrow> string" where
  "strip_chars chars s =
     rev (dropWhile (\<lambda>c. c \<in> set chars) (rev (dropWhile (\<lambda>c. c \<in> set chars) s)))"

text \<open>\<^verbatim>\<open>s.split()\<close>: the maximal runs of characters that are not white space.\<close>

fun split_words :: "string \<Rightarrow> string \<Rightarrow> string list" where
  "split_words w [] = (if w = [] then [] else [w])"
| "split_words w (c # cs) =
     (if is_space c then (if w = [] then split_words [] cs else w # split_words [] cs)
      else split_words (w @ [c]) cs)"

definition split_ws :: "string \<Rightarrow> string list" where
  "split_ws s = split_words [] s"

text \<open>\<^verbatim>\<open>s.split(sep)[0]\<close> for a separator that is not empty: the text before its first
  occurrence, or all of the text.\<close>

fun split_first :: "string \<Rightarrow> string \<Rightarrow> string" where
  "split_first sep [] = []"
| "split_first sep (c # cs) = (if prefix sep (c # cs) then [] else c # split_first sep cs)"

text \<open>\<^verbatim>\<open>sub in s\<close>.\<close>

fun contains :: "string \<Rightarrow> string \<Rightarrow> bool" where
  "contains sub [] = (sub = [])"
| "contains sub (c # cs) = (prefix sub (c # cs) \<or> contains sub cs)"

definition is_digit :: "char \<Rightarrow> bool" where
  "is_digit c = (c \<in> set ''0123456789'')"

definition decimal_value :: "string \<Rightarrow> int" where
  "decimal_value ds = foldl (\<lambda>a d. 10 * a + (of_char d - 48)) 0 ds"

text \<open>
  \<^verbatim>\<open>int(s)\<close> on a text: white space around it, a sign, and decimal digits, with single
  underscores allowed between two digits. \<open>None\<close> is the \<^verbatim>\<open>ValueError\<close>.
\<close>

fun int_body :: "bool \<Rightarrow> string \<Rightarrow> bool" where
  "int_body prev [] = prev"
| "int_body prev (c # cs) =
     (if is_digit c then int_body True cs
      else if c = CHR ''_'' \<and> prev then int_body False cs
      else False)"

definition py_int :: "string \<Rightarrow> int option" where
  "py_int s =
     (case strip s of
        CHR ''-'' # body \<Rightarrow>
          (if int_body False body then Some (- decimal_value (filter is_digit body)) else None)
      | CHR ''+'' # body \<Rightarrow>
          (if int_body False body then Some (decimal_value (filter is_digit body)) else None)
      | body \<Rightarrow>
          (if int_body False body then Some (decimal_value (filter is_digit body)) else None))"

fun digits :: "nat \<Rightarrow> string" where
  "digits n =
     (if n < 10 then [''0123456789'' ! n]
      else digits (n div 10) @ [''0123456789'' ! (n mod 10)])"

text \<open>\<^verbatim>\<open>str(i)\<close> for an integer.\<close>

definition str_int :: "int \<Rightarrow> string" where
  "str_int i = (if i < 0 then CHR ''-'' # digits (nat (- i)) else digits (nat i))"

section \<open>The calculator tool\<close>

text \<open>Exceptions of the host language, as values.\<close>

datatype py_error =
  SyntaxError | IndentationError | ZeroDivisionError | TypeError | OverflowError
  | ValueError | AttributeError | OtherError string

subsection \<open>Sanitising\<close>

text \<open>
  \<^verbatim>\<open>re.sub(r"[^0-9+\-*/(). ]", "", expr)\<close> deletes every character outside the class.
\<close>

definition calc_allowed :: "char \<Rightarrow> bool" where
  "calc_allowed c = (c \<in> set ''0123456789+-*/(). '')"

definition sanitize :: "string \<Rightarrow> string" where
  "sanitize expr = filter calc_allowed expr"

subsection \<open>Tokens of the host language over the sanitised alphabet\<close>

text \<open>
  \<^verbatim>\<open>ast.parse(clean, mode='eval')\<close> reads the text with the tokenizer and the expression
  grammar of the host language. Over the characters that survive sanitising, the tokens are
  decimal integers, floating point literals without exponent, the operators
  \<^verbatim>\<open>+ - * ** / //\<close>, the parentheses, the dot and the ellipsis \<^verbatim>\<open>...\<close>. The
  implementation limits of the interpreter (nesting depth, digits of an integer) are not
  modelled.
\<close>

datatype token =
  NUMBER_INT string | NUMBER_FLOAT string
  | PLUS | MINUS | STAR | DOUBLESTAR | SLASH | DOUBLESLASH | LPAR | RPAR | DOT | ELLIPSIS

fun cons_token :: "token \<Rightarrow> py_error + token list \<Rightarrow> py_error + token list" where
  "cons_token t (Inl e) = Inl e"
| "cons_token t (Inr ts) = Inr (t # ts)"

text \<open>
  A number starts with a digit or with a dot followed by a digit. An integer literal that
  starts with \<^verbatim>\<open>0\<close> and has a non-zero digit is refused; a literal with a dot is a float
  in every case. Two stars or two slashes in a row are one operator; three dots are the
  ellipsis.
\<close>

function tokenize :: "string \<Rightarrow> py_error + token list" where
  "tokenize [] = Inr []"
| "tokenize (c # cs) =
     (if c = CHR '' '' then tokenize cs
      else if is_digit c then
        (let ds = c # takeWhile is_digit cs; r = dropWhile is_digit cs in
         if r \<noteq> [] \<and> hd r = CHR ''.'' then
           cons_token (NUMBER_FLOAT (ds @ ''.'' @ takeWhile is_digit (tl r)))
             (tokenize (dropWhile is_digit (tl r)))
         else if c = CHR ''0'' \<and> filter (\<lambda>d. d \<noteq> CHR ''0'') ds \<noteq> [] then Inl SyntaxError
         else cons_token (NUMBER_INT ds) (tokenize r))
      else if c = CHR ''.'' then
        (if cs \<noteq> [] \<and> is_digit (hd cs) then
           cons_token (NUMBER_FLOAT (CHR ''.'' # takeWhile is_digit cs))
             (tokenize (dropWhile is_digit cs))
         else if take 2 cs = ''..'' then cons_token ELLIPSIS (tokenize (drop 2 cs))
         else cons_token DOT (tokenize cs))
      else if c = CHR ''*'' then
        (if cs \<noteq> [] \<and> hd cs = CHR ''*'' then cons_token DOUBLESTAR (tokenize (tl cs))
         else cons_token STAR (tokenize cs))
      else if c = CHR ''/'' then
        (if cs \<noteq> [] \<and> hd cs = CHR ''/'' then cons_token DOUBLESLASH (tokenize (tl cs))
         else cons_token SLASH (tokenize cs))
      else if c = CHR ''+'' then cons_token PLUS (tokenize cs)
      else if c = CHR ''-'' then cons_token MINUS (tokenize cs)
      else if c = CHR ''('' then cons_token LPAR (tokenize cs)
      else if c = CHR '')'' then cons_token RPAR (tokenize cs)
      else Inl SyntaxError)"
  by pat_completeness auto
termination
proof (relation "measure length")
  fix c :: char and cs x xa :: string
  assume "xa = dropWhile is_digit cs"
  then have "length xa \<le> length cs"
    by (simp add: length_dropWhile_le)
  moreover have "length (tl xa) \<le> length xa"
    by simp
  moreover have "length (dropWhile is_digit (tl xa)) \<le> length (tl xa)"
    by (rule length_dropWhile_le)
  ultimately have "length (dropWhile is_digit (tl xa)) < length (c # cs)"
    by simp
  then show "(dropWhile is_digit (tl xa), c # cs) \<in> measure length"
    by simp
next
  fix c :: char and cs x xa :: string
  assume "xa = dropWhile is_digit cs"
  then have "length xa \<le> length cs"
    by (simp add: length_dropWhile_le)
  then show "(xa, c # cs) \<in> measure length"
    by simp
next
  fix c :: char and cs :: string
  have "length (dropWhile is_digit cs) \<le> length cs"
    by (rule length_dropWhile_le)
  then show "(dropWhile is_digit cs, c # cs) \<in> measure length"
    by simp
qed simp_all

subsection \<open>Expressions\<close>

text \<open>
  The syntax trees the grammar can build from these tokens: constants, the empty tuple
  \<^verbatim>\<open>()\<close>, unary and binary operations, and calls with no argument or with one
  argument (plain, starred or double-starred; there is no comma to separate more).
\<close>

datatype unaryop = UAdd | USub

datatype operator = Add | Sub | Mult | Div | FloorDiv | PowOp

datatype argkind = Positional | Starred | DoubleStarred

datatype expr =
  IntConstant int
  | FloatConstant string
  | EllipsisConstant
  | EmptyTuple
  | UnaryOp unaryop expr
  | BinOp expr operator expr
  | Call expr
  | CallArg expr argkind expr

text \<open>
  The expression grammar, restricted to the tokens above:
  \<^verbatim>\<open>
  sum:     sum ('+'|'-') term | term
  term:    term ('*'|'/'|'//') factor | factor
  factor:  ('+'|'-') factor | power
  power:   primary '**' factor | primary
  primary: primary '(' [argument] ')' | atom
  atom:    NUMBER | '...' | '(' ')' | '(' sum ')'
  argument: sum | '*' sum | '**' sum
  \<close>
  It is read by an operator-precedence parser: a stack of pending operators and open
  parentheses, a stack of finished operands, and a flag saying whether an operand or an
  operator comes next.
\<close>

datatype pending = BinPending operator | UnPending unaryop | GroupOpen | CallOpen expr argkind

fun binding :: "operator \<Rightarrow> nat" where
  "binding Add = 1"
| "binding Sub = 1"
| "binding Mult = 2"
| "binding Div = 2"
| "binding FloorDiv = 2"
| "binding PowOp = 4"

definition unary_binding :: nat where
  "unary_binding = 3"

text \<open>Build the operations that bind at least as tightly as \<open>p\<close>, topmost first.\<close>

fun reduce :: "nat \<Rightarrow> pending list \<Rightarrow> expr list \<Rightarrow> pending list \<times> expr list" where
  "reduce p (BinPending b # ps) (r # l # es) =
     (if p \<le> binding b then reduce p ps (BinOp l b r # es)
      else (BinPending b # ps, r # l # es))"
| "reduce p (UnPending u # ps) (x # es) =
     (if p \<le> unary_binding then reduce p ps (UnaryOp u x # es)
      else (UnPending u # ps, x # es))"
| "reduce p ps es = (ps, es)"

record pstate =
  pendings :: "pending list"
  operands :: "expr list"
  want_operand :: bool

definition push_operand :: "expr \<Rightarrow> pstate \<Rightarrow> py_error + pstate" where
  "push_operand e st = Inr (st\<lparr>operands := e # operands st, want_operand := False\<rparr>)"

definition push_pending :: "pending \<Rightarrow> pstate \<Rightarrow> py_error + pstate" where
  "push_pending p st = Inr (st\<lparr>pendings := p # pendings st, want_operand := True\<rparr>)"

definition binary :: "operator \<Rightarrow> pstate \<Rightarrow> py_error + pstate" where
  "binary b st =
     (let (ps, es) = reduce (if b = PowOp then binding b + 1 else binding b)
                       (pendings st) (operands st)
      in Inr \<lparr>pendings = BinPending b # ps, operands = es, want_operand = True\<rparr>)"

text \<open>One token, where an operand is expected.\<close>

fun shift_operand :: "token \<Rightarrow> pstate \<Rightarrow> py_error + pstate" where
  "shift_operand (NUMBER_INT ds) st = push_operand (IntConstant (decimal_value ds)) st"
| "shift_operand (NUMBER_FLOAT ds) st = push_operand (FloatConstant ds) st"
| "shift_operand ELLIPSIS st = push_operand EllipsisConstant st"
| "shift_operand PLUS st = push_pending (UnPending UAdd) st"
| "shift_operand MINUS st = push_pending (UnPending USub) st"
| "shift_operand LPAR st = push_pending GroupOpen st"
| "shift_operand RPAR st =
     (case pendings st of
        GroupOpen # ps \<Rightarrow> push_operand EmptyTuple (st\<lparr>pendings := ps\<rparr>)
      | CallOpen f Positional # ps \<Rightarrow> push_operand (Call f) (st\<lparr>pendings := ps\<rparr>)
      | _ \<Rightarrow> Inl SyntaxError)"
| "shift_operand STAR st =
     (case pendings st of
        CallOpen f Positional # ps \<Rightarrow> Inr (st\<lparr>pendings := CallOpen f Starred # ps\<rparr>)
      | _ \<Rightarrow> Inl SyntaxError)"
| "shift_operand DOUBLESTAR st =
     (case pendings st of
        CallOpen f Positional # ps \<Rightarrow> Inr (st\<lparr>pendings := CallOpen f DoubleStarred # ps\<rparr>)
      | _ \<Rightarrow> Inl SyntaxError)"
| "shift_operand _ st = Inl SyntaxError"

text \<open>One token, after an operand.\<close>

fun shift_operator :: "token \<Rightarrow> pstate \<Rightarrow> py_error + pstate" where
  "shift_operator PLUS st = binary Add st"
| "shift_operator MINUS st = binary Sub st"
| "shift_operator STAR st = binary Mult st"
| "shift_operator SLASH st = binary Div st"
| "shift_operator DOUBLESLASH st = binary FloorDiv st"
| "shift_operator DOUBLESTAR st = binary PowOp st"
| "shift_operator LPAR st =
     (case operands st of
        f # es \<Rightarrow> Inr \<lparr>pendings = CallOpen f Positional # pendings st, operands = es,
                       want_operand = True\<rparr>
      | [] \<Rightarrow> Inl SyntaxError)"
| "shift_operator RPAR st =
     (case reduce 0 (pendings st) (operands st) of
        (GroupOpen # ps, es) \<Rightarrow> Inr \<lparr>pendings = ps, operands = es, want_operand = False\<rparr>
      | (CallOpen f k # ps, a # es) \<Rightarrow>
          Inr \<lparr>pendings = ps, operands = CallArg f k a # es, want_operand = False\<rparr>
      | _ \<Rightarrow> Inl SyntaxError)"
| "shift_operator _ st = Inl SyntaxError"

fun parse_tokens :: "token list \<Rightarrow> pstate \<Rightarrow> py_error + expr" where
  "parse_tokens [] st =
     (if want_operand st then Inl SyntaxError
      else case reduce 0 (pendings st) (operands st) of
             ([], [e]) \<Rightarrow> Inr e
           | _ \<Rightarrow> Inl SyntaxError)"
| "parse_tokens (t # ts) st =
     (case (if want_operand st then shift_operand t st else shift_operator t st) of
        Inl e \<Rightarrow> Inl e
      | Inr st' \<Rightarrow> parse_tokens ts st')"

text \<open>
  \<^verbatim>\<open>ast.parse(clean, mode='eval')\<close>: a text that starts with a space is an unexpected
  indent.
\<close>

definition ast_parse :: "string \<Rightarrow> py_error + expr" where
  "ast_parse clean =
     (if clean \<noteq> [] \<and> hd clean = CHR '' '' then Inl IndentationError
      else case tokenize clean of
             Inl e \<Rightarrow> Inl e
           | Inr ts \<Rightarrow> parse_tokens ts \<lparr>pendings = [], operands = [], want_operand = True\<rparr>)"

subsection \<open>Evaluation\<close>

text \<open>
  \<^verbatim>\<open>eval(compile(...))\<close> computes with the unbounded integers of the host language and
  with its inexact numbers (floats, and the complex numbers a power can produce). The
  inexact arithmetic is a parameter: the type \<open>'f\<close> of inexact numbers with the
  operations the program applies to them. \<open>float_arith\<close> is the arithmetic on two
  numbers when an operand or the result is inexact, \<open>float_round\<close> is
  \<^verbatim>\<open>round(x, 4)\<close>, \<open>float_str\<close> is \<^verbatim>\<open>str(x)\<close> and \<open>float_parse\<close> is
  \<^verbatim>\<open>float(s)\<close>.
\<close>

datatype 'f pyvalue = PyInt int | PyInexact 'f | PyEllipsis | PyTuple

record 'f floats =
  float_literal :: "string \<Rightarrow> 'f"
  float_arith :: "operator \<Rightarrow> 'f pyvalue \<Rightarrow> 'f pyvalue \<Rightarrow> py_error + 'f"
  float_negate :: "'f \<Rightarrow> 'f"
  float_round :: "'f \<Rightarrow> py_error + 'f"
  float_str :: "'f \<Rightarrow> string"
  float_parse :: "string \<Rightarrow> 'f option"

definition inexact ::
  "'f floats \<Rightarrow> operator \<Rightarrow> 'f pyvalue \<Rightarrow> 'f pyvalue \<Rightarrow> py_error + 'f pyvalue" where
  "inexact F b x y = (case float_arith F b x y of Inl e \<Rightarrow> Inl e | Inr z \<Rightarrow> Inr (PyInexact z))"

text \<open>
  Two integers are added, subtracted and multiplied exactly; \<^verbatim>\<open>//\<close> is the floor of the
  quotient and \<^verbatim>\<open>**\<close> with an exponent that is not negative is the exact power. A zero
  divisor raises. The empty tuple can be concatenated with itself and repeated.
\<close>

fun int_binop ::
  "'f floats \<Rightarrow> operator \<Rightarrow> int \<Rightarrow> int \<Rightarrow> py_error + 'f pyvalue" where
  "int_binop F Add a b = Inr (PyInt (a + b))"
| "int_binop F Sub a b = Inr (PyInt (a - b))"
| "int_binop F Mult a b = Inr (PyInt (a * b))"
| "int_binop F Div a b =
     (if b = 0 then Inl ZeroDivisionError else inexact F Div (PyInt a) (PyInt b))"
| "int_binop F FloorDiv a b =
     (if b = 0 then Inl ZeroDivisionError else Inr (PyInt (a div b)))"
| "int_binop F PowOp a b =
     (if 0 \<le> b then Inr (PyInt (a ^ nat b)) else inexact F PowOp (PyInt a) (PyInt b))"

fun apply_binop ::
  "'f floats \<Rightarrow> operator \<Rightarrow> 'f pyvalue \<Rightarrow> 'f pyvalue \<Rightarrow> py_error + 'f pyvalue" where
  "apply_binop F b (PyInt x) (PyInt y) = int_binop F b x y"
| "apply_binop F b (PyInt x) (PyInexact y) = inexact F b (PyInt x) (PyInexact y)"
| "apply_binop F b (PyInexact x) (PyInt y) = inexact F b (PyInexact x) (PyInt y)"
| "apply_binop F b (PyInexact x) (PyInexact y) = inexact F b (PyInexact x) (PyInexact y)"
| "apply_binop F b PyTuple PyTuple = (if b = Add then Inr PyTuple else Inl TypeError)"
| "apply_binop F b PyTuple (PyInt y) = (if b = Mult then Inr PyTuple else Inl TypeError)"
| "apply_binop F b (PyInt x) PyTuple = (if b = Mult then Inr PyTuple else Inl TypeError)"
| "apply_binop F b _ _ = Inl TypeError"

fun apply_unaryop :: "'f floats \<Rightarrow> unaryop \<Rightarrow> 'f pyvalue \<Rightarrow> py_error + 'f pyvalue" where
  "apply_unaryop F USub (PyInt x) = Inr (PyInt (- x))"
| "apply_unaryop F UAdd (PyInt x) = Inr (PyInt x)"
| "apply_unaryop F USub (PyInexact x) = Inr (PyInexact (float_negate F x))"
| "apply_unaryop F UAdd (PyInexact x) = Inr (PyInexact x)"
| "apply_unaryop F _ _ = Inl TypeError"

text \<open>
  Operands are evaluated from left to right. A call evaluates the callee and the argument
  and then raises, since no value of these expressions is callable.
\<close>

fun py_eval :: "'f floats \<Rightarrow> expr \<Rightarrow> py_error + 'f pyvalue" where
  "py_eval F (IntConstant n) = Inr (PyInt n)"
| "py_eval F (FloatConstant s) = Inr (PyInexact (float_literal F s))"
| "py_eval F EllipsisConstant = Inr PyEllipsis"
| "py_eval F EmptyTuple = Inr PyTuple"
| "py_eval F (UnaryOp u e) =
     (case py_eval F e of Inl x \<Rightarrow> Inl x | Inr v \<Rightarrow> apply_unaryop F u v)"
| "py_eval F (BinOp l b r) =
     (case py_eval F l of
        Inl x \<Rightarrow> Inl x
      | Inr v \<Rightarrow> (case py_eval F r of Inl x \<Rightarrow> Inl x | Inr w \<Rightarrow> apply_binop F b v w))"
| "py_eval F (Call f) = (case py_eval F f of Inl x \<Rightarrow> Inl x | Inr v \<Rightarrow> Inl TypeError)"
| "py_eval F (CallArg f k a) =
     (case py_eval F f of
        Inl x \<Rightarrow> Inl x
      | Inr v \<Rightarrow> (case py_eval F a of Inl x \<Rightarrow> Inl x | Inr w \<Rightarrow> Inl TypeError))"

text \<open>\<^verbatim>\<open>round(v, 4)\<close>: an integer is its own rounding; the ellipsis and a tuple have none.\<close>

fun py_round :: "'f floats \<Rightarrow> 'f pyvalue \<Rightarrow> py_error + 'f pyvalue" where
  "py_round F (PyInt n) = Inr (PyInt n)"
| "py_round F (PyInexact x) =
     (case float_round F x of Inl e \<Rightarrow> Inl e | Inr y \<Rightarrow> Inr (PyInexact y))"
| "py_round F _ = Inl TypeError"

fun py_str :: "'f floats \<Rightarrow> 'f pyvalue \<Rightarrow> string" where
  "py_str F (PyInt n) = str_int n"
| "py_str F (PyInexact x) = float_str F x"
| "py_str F PyEllipsis = ''Ellipsis''"
| "py_str F PyTuple = ''()''"

subsection \<open>The tool\<close>

text \<open>
  The body of the \<^verbatim>\<open>try\<close> block of \<^verbatim>\<open>tool_calc\<close>: sanitise, parse, evaluate, round to
  four places, render. Every exception of a stage is a left value.
\<close>

definition calc_try :: "'f floats \<Rightarrow> string \<Rightarrow> py_error + string" where
  "calc_try F expr =
     (let clean = sanitize expr in
      case ast_parse clean of
        Inl e \<Rightarrow> Inl e
      | Inr t \<Rightarrow>
         (case py_eval F t of
            Inl e \<Rightarrow> Inl e
          | Inr v \<Rightarrow> (case py_round F v of Inl e \<Rightarrow> Inl e | Inr r \<Rightarrow> Inr (py_str F r))))"

text \<open>
  The fixed reply of \<^verbatim>\<open>except Exception\<close>. The letter between \<^verbatim>\<open>Schei\<close> and
  \<^verbatim>\<open>e\<close> lies outside ASCII and is written as the two bytes of its UTF-8 encoding, as are
  the other such characters of the fixed texts below; no operation of the program looks
  inside them.
\<close>

definition calc_error :: string where
  "calc_error = ''Math error. Schei'' @ [CHR 0xC3, CHR 0x9F] @ ''e.''"

definition tool_calc :: "'f floats \<Rightarrow> string \<Rightarrow> string" where
  "tool_calc F expr = (case calc_try F expr of Inl e \<Rightarrow> calc_error | Inr s \<Rightarrow> s)"

text \<open>Whether an expression contains call syntax.\<close>

fun has_call :: "expr \<Rightarrow> bool" where
  "has_call (UnaryOp u e) = has_call e"
| "has_call (BinOp l b r) = (has_call l \<or> has_call r)"
| "has_call (Call f) = True"
| "has_call (CallArg f k a) = True"
| "has_call _ = False"

section \<open>The cleaning schedule\<close>

subsection \<open>Dates\<close>

text \<open>
  A naive \<^verbatim>\<open>datetime\<close> of the host language. \<^verbatim>\<open>datetime(year, month, day)\<close> checks
  the year against 1 to 9999, the month and the day of the month, and raises
  \<^verbatim>\<open>ValueError\<close> otherwise (\<open>None\<close> here); the time of day is then midnight.
\<close>

record datetime =
  year :: int
  month :: int
  day :: int
  hour :: int
  minute :: int
  second :: int
  microsecond :: int

definition is_leap :: "int \<Rightarrow> bool" where
  "is_leap y = (y mod 4 = 0 \<and> (y mod 100 \<noteq> 0 \<or> y mod 400 = 0))"

definition days_in_month :: "int \<Rightarrow> int \<Rightarrow> int" where
  "days_in_month y m =
     (if m = 2 \<and> is_leap y then 29
      else [31, 28, 31, 30, 31, 30, 31, 31, 30, 31, 30, 31] ! nat (m - 1))"

definition datetime_of_date :: "int \<Rightarrow> int \<Rightarrow> int \<Rightarrow> datetime option" where
  "datetime_of_date y m d =
     (if 1 \<le> y \<and> y \<le> 9999 \<and> 1 \<le> m \<and> m \<le> 12 \<and> 1 \<le> d \<and> d \<le> days_in_month y m
      then Some \<lparr>year = y, month = m, day = d, hour = 0, minute = 0, second = 0,
                  microsecond = 0\<rparr>
      else None)"

text \<open>\<^verbatim>\<open>d.replace(year=y)\<close> builds the date again, with the same checks.\<close>

definition replace_year :: "datetime \<Rightarrow> int \<Rightarrow> datetime option" where
  "replace_year d y =
     (if 1 \<le> y \<and> y \<le> 9999 \<and> day d \<le> days_in_month y (month d) then Some (d\<lparr>year := y\<rparr>)
      else None)"

text \<open>The day number of a date, counted from day 1 on January 1 of year 1.\<close>

definition days_before_year :: "int \<Rightarrow> int" where
  "days_before_year y = (y - 1) * 365 + (y - 1) div 4 - (y - 1) div 100 + (y - 1) div 400"

definition days_before_month :: "int \<Rightarrow> int \<Rightarrow> int" where
  "days_before_month y m = sum_list (map (days_in_month y) [1..m - 1])"

definition toordinal :: "datetime \<Rightarrow> int" where
  "toordinal d = days_before_year (year d) + days_before_month (year d) (month d) + day d"

definition microseconds :: "datetime \<Rightarrow> int" where
  "microseconds d =
     ((toordinal d * 24 + hour d) * 60 + minute d) * 60000000 + second d * 1000000
       + microsecond d"

text \<open>
  \<^verbatim>\<open>(a - b).days\<close>: the difference is normalised so that its seconds and microseconds
  are not negative, hence the days are the floor of the difference in days.
\<close>

definition timedelta_days :: "datetime \<Rightarrow> datetime \<Rightarrow> int" where
  "timedelta_days a b = (microseconds a - microseconds b) div 86400000000"

subsection \<open>The roster\<close>

text \<open>
  The rows \<^verbatim>\<open>csv.DictReader\<close> reads from \<^verbatim>\<open>CLEANING_DATA\<close>, whose first line names the
  fields \<^verbatim>\<open>Date Range\<close>, \<^verbatim>\<open>Kitchen\<close> and \<^verbatim>\<open>WC + Floor\<close>.
\<close>

type_synonym row = "string \<times> string \<times> string"

definition date_range :: "row \<Rightarrow> string" where
  "date_range r = fst r"

definition kitchen :: "row \<Rightarrow> string" where
  "kitchen r = fst (snd r)"

definition wc_floor :: "row \<Rightarrow> string" where
  "wc_floor r = snd (snd r)"

definition CLEANING_DATA :: "row list" where
  "CLEANING_DATA =
     [(''Jan 03 - 04'', ''member3'', ''member4''),
      (''Jan 10 - 11'', ''member1'', ''member2''),
      (''Jan 17 - 18'', ''member4'', ''member3''),
      (''Jan 24 - 25'', ''member2'', ''member1''),
      (''Jan 31 - Feb 01'', ''member3'', ''member4''),
      (''Feb 07 - 08'', ''member1'', ''member2''),
      (''Feb 14 - 15'', ''member4'', ''member3''),
      (''Feb 21 - 22'', ''member2'', ''member1''),
      (''Feb 28 - Mar 01'', ''member3'', ''member4''),
      (''Mar 07 - 08'', ''member1'', ''member2''),
      (''Mar 14 - 15'', ''member4'', ''member3''),
      (''Mar 21 - 22'', ''member2'', ''member1''),
      (''Mar 28 - 29'', ''member3'', ''member4''),
      (''Apr 04 - 05'', ''member1'', ''member2''),
      (''Apr 11 - 12'', ''member4'', ''member3''),
      (''Apr 18 - 19'', ''member2'', ''member1''),
      (''Apr 25 - 26'', ''member3'', ''member4''),
      (''May 02 - 03'', ''member1'', ''member2''),
      (''May 09 - 10'', ''member4'', ''member3''),
      (''May 16 - 17'', ''member2'', ''member1''),
      (''May 23 - 24'', ''member3'', ''member4''),
      (''May 30 - 31'', ''member1'', ''member2''),
      (''Jun 06 - 07'', ''member4'', ''member3''),
      (''Jun 13 - 14'', ''member2'', ''member1''),
      (''Jun 20 - 21'', ''member3'', ''member4''),
      (''Jun 27 - 28'', ''member1'', ''member2''),
      (''Jul 04 - 05'', ''member4'', ''member3''),
      (''Jul 11 - 12'', ''member2'', ''member1''),
      (''Jul 18 - 19'', ''member3'', ''member4''),
      (''Jul 25 - 26'', ''member1'', ''member2''),
      (''Aug 01 - 02'', ''member4'', ''member3''),
      (''Aug 08 - 09'', ''member2'', ''member1''),
      (''Aug 15 - 16'', ''member3'', ''member4''),
      (''Aug 22 - 23'', ''member1'', ''member2''),
      (''Aug 29 - 30'', ''member4'', ''member3''),
      (''Sep 05 - 06'', ''member2'', ''member1''),
      (''Sep 12 - 13'', ''member3'', ''member4''),
      (''Sep 19 - 20'', ''member1'', ''member2''),
      (''Sep 26 - 27'', ''member4'', ''member3''),
      (''Oct 03 - 04'', ''member2'', ''member1''),
      (''Oct 10 - 11'', ''member3'', ''member4''),
      (''Oct 17 - 18'', ''member1'', ''member2''),
      (''Oct 24 - 25'', ''member4'', ''member3''),
      (''Oct 31 - Nov 01'', ''member2'', ''member1''),
      (''Nov 07 - 08'', ''member3'', ''member4''),
      (''Nov 14 - 15'', ''member1'', ''member2''),
      (''Nov 21 - 22'', ''member4'', ''member3''),
      (''Nov 28 - 29'', ''member2'', ''member1''),
      (''Dec 05 - 06'', ''member3'', ''member4''),
      (''Dec 12 - 13'', ''member1'', ''member2''),
      (''Dec 19 - 20'', ''member4'', ''member3''),
      (''Dec 26 - 27'', ''member2'', ''member1'')]"

definition MONTH_MAP :: "(string \<times> int) list" where
  "MONTH_MAP =
     [(''Jan'', 1), (''Feb'', 2), (''Mar'', 3), (''Apr'', 4), (''May'', 5), (''Jun'', 6),
      (''Jul'', 7), (''Aug'', 8), (''Sep'', 9), (''Oct'', 10), (''Nov'', 11), (''Dec'', 12)]"

definition USER_MAP :: "(string \<times> string) list" where
  "USER_MAP =
     [(''member3'', ''@member3''), (''member4'', ''@member4''), (''member1'', ''@member1''),
      (''member2'', ''@member2'')]"

subsection \<open>Resolving a row to a date\<close>

text \<open>
  \<^verbatim>\<open>parse_schedule_date\<close> reads the clock twice: \<open>now1\<close> gives the year, \<open>now2\<close> the
  month for the correction at the turn of the year. Every exception of the body, and a
  month name that is not known, gives \<open>None\<close>.
\<close>

definition parse_schedule_date :: "datetime \<Rightarrow> datetime \<Rightarrow> string \<Rightarrow> datetime option" where
  "parse_schedule_date now1 now2 label =
     (let yr = year now1;
          first_part = strip (split_first '' - '' label)
      in case split_ws first_part of
           [month_str, day_str] \<Rightarrow>
             (case map_of MONTH_MAP month_str of
                None \<Rightarrow> None
              | Some m \<Rightarrow>
                 (case py_int day_str of
                    None \<Rightarrow> None
                  | Some dd \<Rightarrow>
                     (case datetime_of_date yr m dd of
                        None \<Rightarrow> None
                      | Some d \<Rightarrow>
                         if month now2 = 12 \<and> month d = 1 then replace_year d (yr + 1)
                         else if month now2 = 1 \<and> month d = 12 then replace_year d (yr - 1)
                         else Some d)))
         | _ \<Rightarrow> None)"

subsection \<open>The tool\<close>

text \<open>
  \<^verbatim>\<open>tool_check_schedule\<close> reads the clock once for \<open>now\<close>; \<open>readings i\<close> are the two
  readings of \<^verbatim>\<open>parse_schedule_date\<close> for row \<open>i\<close>. The loop appends the rows whose
  day difference lies between -2 and 30 to \<^verbatim>\<open>future\<close>.
\<close>

fun future_rows ::
  "datetime \<Rightarrow> (nat \<Rightarrow> datetime \<times> datetime) \<Rightarrow> nat \<Rightarrow> row list \<Rightarrow> (int \<times> row) list" where
  "future_rows now readings i [] = []"
| "future_rows now readings i (r # rs) =
     (case parse_schedule_date (fst (readings i)) (snd (readings i)) (date_range r) of
        None \<Rightarrow> future_rows now readings (Suc i) rs
      | Some d \<Rightarrow>
         (let delta = timedelta_days d now in
          if - 2 \<le> delta \<and> delta \<le> 30 then (delta, r) # future_rows now readings (Suc i) rs
          else future_rows now readings (Suc i) rs))"

definition user_name :: "string \<Rightarrow> string" where
  "user_name u = (case map_of USER_MAP u of None \<Rightarrow> u | Some n \<Rightarrow> n)"

definition schedule_header :: string where
  "schedule_header =
     [CHR 0xF0, CHR 0x9F, CHR 0x93, CHR 0x8B] @ '' **Cleaning Schedule:**'' @ [CHR 0x0A]"

definition render_row :: "row \<Rightarrow> string" where
  "render_row r =
     [CHR 0x0A, CHR 0xF0, CHR 0x9F, CHR 0x97, CHR 0x93] @ '' **'' @ date_range r @ ''**''
       @ [CHR 0x0A]
     @ ''   '' @ [CHR 0xF0, CHR 0x9F, CHR 0x8D, CHR 0xB3] @ '' Kitchen: ''
       @ user_name (kitchen r) @ [CHR 0x0A]
     @ ''   '' @ [CHR 0xF0, CHR 0x9F, CHR 0x9A, CHR 0xBD] @ '' WC: ''
       @ user_name (wc_floor r) @ [CHR 0x0A]"

definition render_schedule :: "row list \<Rightarrow> string" where
  "render_schedule rs = schedule_header @ concat (map render_row rs)"

definition no_schedule :: string where
  "no_schedule = ''No upcoming schedule found.''"

text \<open>\<^verbatim>\<open>list.sort(key=...)\<close> is stable, as \<open>sort_key\<close> is.\<close>

definition tool_check_schedule :: "datetime \<Rightarrow> (nat \<Rightarrow> datetime \<times> datetime) \<Rightarrow> string" where
  "tool_check_schedule now readings =
     (let future = future_rows now readings 0 CLEANING_DATA in
      if future = [] then no_schedule
      else render_schedule (map snd (take 3 (sort_key fst future))))"

text \<open>A clock that shows the same instant at every reading of one call.\<close>

definition fixed_clock :: "datetime \<Rightarrow> nat \<Rightarrow> datetime \<times> datetime" where
  "fixed_clock now i = (now, now)"

definition at_midnight :: "int \<Rightarrow> int \<Rightarrow> int \<Rightarrow> datetime" where
  "at_midnight y m d =
     \<lparr>year = y, month = m, day = d, hour = 0, minute = 0, second = 0, microsecond = 0\<rparr>"

text \<open>
  The month and the day a label names: the steps of \<^verbatim>\<open>parse_schedule_date\<close> that do not
  depend on the clock.
\<close>

definition label_month_day :: "string \<Rightarrow> (int \<times> int) option" where
  "label_month_day label =
     (case split_ws (strip (split_first '' - '' label)) of
        [month_str, day_str] \<Rightarrow>
          (case map_of MONTH_MAP month_str of
             None \<Rightarrow> None
           | Some m \<Rightarrow> (case py_int day_str of None \<Rightarrow> None | Some dd \<Rightarrow> Some (m, dd)))
      | _ \<Rightarrow> None)"

text \<open>The shortest length of each month over all years.\<close>

definition shortest_month :: "int \<Rightarrow> int" where
  "shortest_month m = [31, 28, 31, 30, 31, 30, 31, 31, 30, 31, 30, 31] ! nat (m - 1)"

definition plain_label :: "string \<Rightarrow> bool" where
  "plain_label label =
     (case label_month_day label of
        None \<Rightarrow> False
      | Some (m, dd) \<Rightarrow> 1 \<le> m \<and> m \<le> 12 \<and> 1 \<le> dd \<and> dd \<le> shortest_month m)"

text \<open>The time of day of an instant, in microseconds.\<close>

definition time_of_day :: "datetime \<Rightarrow> int" where
  "time_of_day d = ((hour d * 60 + minute d) * 60 + second d) * 1000000 + microsecond d"

definition at_time :: "int \<Rightarrow> int \<Rightarrow> int \<Rightarrow> int \<Rightarrow> int \<Rightarrow> datetime" where
  "at_time y m d h mi =
     \<lparr>year = y, month = m, day = d, hour = h, minute = mi, second = 0, microsecond = 0\<rparr>"

text \<open>
  The rows shown on January 5, 2025: at midnight, and at any later instant of that day.
\<close>

definition midnight_rows :: "row list" where
  "midnight_rows = [(''Jan 03 - 04'', ''member3'', ''member4''),
      (''Jan 10 - 11'', ''member1'', ''member2''), (''Jan 17 - 18'', ''member4'', ''member3'')]"

definition daytime_rows :: "row list" where
  "daytime_rows = [(''Jan 10 - 11'', ''member1'', ''member2''),
      (''Jan 17 - 18'', ''member4'', ''member3''), (''Jan 24 - 25'', ''member2'', ''member1'')]"

section \<open>The search tool\<close>

text \<open>
  A result of the search provider is a dictionary; \<open>None\<close> is a key that is absent.
  \<^verbatim>\<open>r.get("title", "")\<close> and \<^verbatim>\<open>r.get("body") or r.get("snippet", "")\<close>:
\<close>

record search_result =
  title :: "string option"
  body :: "string option"
  snippet :: "string option"

definition result_title :: "search_result \<Rightarrow> string" where
  "result_title r = (case title r of None \<Rightarrow> [] | Some t \<Rightarrow> t)"

definition result_body :: "search_result \<Rightarrow> string" where
  "result_body r =
     (let b = (case body r of None \<Rightarrow> [] | Some b \<Rightarrow> b) in
      if b \<noteq> [] then b else (case snippet r of None \<Rightarrow> [] | Some s \<Rightarrow> s))"

definition format_result :: "string \<Rightarrow> string \<Rightarrow> string" where
  "format_result t b = ''- '' @ t @ '': '' @ b"

text \<open>
  The loop of \<^verbatim>\<open>_search\<close> over the raw results, with the set \<^verbatim>\<open>seen\<close> of signatures
  and the list \<^verbatim>\<open>results\<close> of formatted entries.
\<close>

fun search_loop ::
  "search_result list \<Rightarrow> (string \<times> string) set \<Rightarrow> string list \<Rightarrow> string list" where
  "search_loop [] seen results = results"
| "search_loop (r # raw) seen results =
     (let t = result_title r; b = result_body r in
      if b = [] then search_loop raw seen results
      else let signature = (take 20 t, take 20 b) in
        if signature \<notin> seen
        then search_loop raw (insert signature seen) (results @ [format_result t b])
        else search_loop raw seen results)"

text \<open>\<^verbatim>\<open>sep.join(xs)\<close>.\<close>

fun join :: "string \<Rightarrow> string list \<Rightarrow> string" where
  "join sep [] = []"
| "join sep [x] = x"
| "join sep (x # y # ys) = x @ sep @ join sep (y # ys)"

definition no_results :: string where
  "no_results = ''No results found. Nichts.''"

definition search_text :: "search_result list \<Rightarrow> string" where
  "search_text raw =
     (let results = search_loop raw {} [] in
      if results \<noteq> [] then join [CHR 0x0A] (take 3 results) else no_results)"

text \<open>
  What the provider does with one query: it returns the news results and the text
  results, raises an exception with a message, or does not answer within the ten seconds
  of \<^verbatim>\<open>asyncio.wait_for\<close>.
\<close>

datatype provider_reply = Hits "search_result list" "search_result list" | Raises string | Hangs

fun tool_search :: "provider_reply \<Rightarrow> string" where
  "tool_search (Hits news texts) = search_text (news @ texts)"
| "tool_search Hangs = ''Search timed out. Internet is kaputt.''"
| "tool_search (Raises msg) = ''Search failed: '' @ msg"

text \<open>\<^verbatim>\<open>s.split("\n")\<close>: the lines of a text.\<close>

fun split_lines :: "string \<Rightarrow> string \<Rightarrow> string list" where
  "split_lines w [] = [w]"
| "split_lines w (c # cs) =
     (if c = CHR 0x0A then w # split_lines [] cs else split_lines (w @ [c]) cs)"

definition lines :: "string \<Rightarrow> string list" where
  "lines s = split_lines [] s"

section \<open>The message handler\<close>

subsection \<open>The action directive\<close>

text \<open>
  \<^verbatim>\<open>re.search(r"ACTION:\s*(SEARCH|CALC|REMIND|CHECK_SCHEDULE)\s*(.*)", reply, re.IGNORECASE)\<close>.
  On code points below 256 ignoring case identifies exactly the ASCII letters with their
  capitals. A match starts at the first position where \<^verbatim>\<open>ACTION:\<close>, any white space and
  one of the four names follow; the second group is the rest of the line after the white
  space that follows the name (the dot does not match a line feed).
\<close>

text \<open>
  \<^verbatim>\<open>s.upper()\<close> on ASCII text; the handler applies it to the first group of a match,
  which consists of ASCII letters and the underscore.
\<close>

definition ascii_upper :: "char \<Rightarrow> char" where
  "ascii_upper c =
     (if 97 \<le> (of_char c :: nat) \<and> (of_char c :: nat) \<le> 122
      then char_of (of_char c - (32::nat)) else c)"

definition upper :: "string \<Rightarrow> string" where
  "upper s = map ascii_upper s"

definition prefix_ignorecase :: "string \<Rightarrow> string \<Rightarrow> bool" where
  "prefix_ignorecase p s = (length p \<le> length s \<and> upper (take (length p) s) = upper p)"

definition tool_names :: "string list" where
  "tool_names = [''SEARCH'', ''CALC'', ''REMIND'', ''CHECK_SCHEDULE'']"

definition match_here :: "string \<Rightarrow> (string \<times> string) option" where
  "match_here s =
     (if prefix_ignorecase ''ACTION:'' s then
        (let rest = dropWhile is_space (drop 7 s) in
         case filter (\<lambda>n. prefix_ignorecase n rest) tool_names of
           [] \<Rightarrow> None
         | n # _ \<Rightarrow>
             Some (take (length n) rest,
                   takeWhile (\<lambda>c. c \<noteq> CHR 0x0A) (dropWhile is_space (drop (length n) rest))))
      else None)"

fun action_search :: "string \<Rightarrow> (string \<times> string) option" where
  "action_search [] = match_here []"
| "action_search (c # cs) =
     (case match_here (c # cs) of Some m \<Rightarrow> Some m | None \<Rightarrow> action_search cs)"

text \<open>\<^verbatim>\<open>s.replace(old, new)\<close> for a text \<open>old\<close> that is not empty.\<close>

function replace :: "string \<Rightarrow> string \<Rightarrow> string \<Rightarrow> string" where
  "replace old new [] = []"
| "replace old new (c # cs) =
     (if old \<noteq> [] \<and> prefix old (c # cs)
      then new @ replace old new (drop (length old) (c # cs))
      else c # replace old new cs)"
  by pat_completeness auto
termination
  by (relation "measure (\<lambda>(old, new, s). length s)") (auto simp: neq_Nil_conv)

text \<open>\<^verbatim>\<open>s.split(' ', 1)\<close>: the text before the first space and, when there is a space,
  the text after it.\<close>

definition split_space_once :: "string \<Rightarrow> string list" where
  "split_space_once s =
     (let a = takeWhile (\<lambda>c. c \<noteq> CHR '' '') s; r = dropWhile (\<lambda>c. c \<noteq> CHR '' '') s in
      if r = [] then [a] else [a, tl r])"

subsection \<open>State and environment\<close>

text \<open>
  The state of the program and what it has done to the outside: the conversation memory,
  the chat of the weekly announcement, the one-shot jobs registered with the job queue
  (chat, delay in seconds, text), the messages the transport delivered, the warnings and
  errors logged, what each call of the model returned, in order, and a counter that
  numbers the calls of the transport.
\<close>

type_synonym 'f job = "chat_id \<times> 'f \<times> string"

datatype outbound = Sent chat_id string | Edited chat_id int string

text \<open>
  The two log entries of the handler: \<^verbatim>\<open>logger.warning(f"Edit failed: {e}")\<close> with the
  text of the \<^verbatim>\<open>BadRequest\<close>, and \<^verbatim>\<open>logger.error(f"Error: {e}")\<close> with the exception
  that left the loop.
\<close>

datatype log_entry = EditFailed string | LoopError py_error

record 'f world =
  session_memory :: memory
  ANNOUNCE_CHAT_ID :: "chat_id option"
  jobs :: "'f job list"
  outbox :: "outbound list"
  logged :: "log_entry list"
  model_trace :: "(py_error + string) list"
  transport_calls :: nat

text \<open>
  What the transport does with one call: it delivers and gives the identifier of the
  message, or raises \<^verbatim>\<open>BadRequest\<close> with a message, or raises another error.
\<close>

datatype transport_reply = Delivered int | BadRequest string | TransportError string

text \<open>
  The collaborators of one invocation of the handler. \<open>backend k messages\<close> is what the
  \<open>k\<close>-th call of the model returns for the message list (\<open>Inl\<close> when the call raises or
  returns no text). \<open>transport k\<close> is the outcome of the \<open>k\<close>-th call of the transport.
  \<open>search k query\<close> is the provider's answer in step \<open>k\<close>, \<open>clock k\<close> are the readings
  of the clock of the schedule tool there. \<open>run_once_accepts\<close> says whether the job queue
  takes a delay or raises.
\<close>

record 'f env =
  floats :: "'f floats"
  backend :: "nat \<Rightarrow> turn list \<Rightarrow> py_error + string"
  transport :: "nat \<Rightarrow> transport_reply"
  search :: "nat \<Rightarrow> string \<Rightarrow> provider_reply"
  clock :: "nat \<Rightarrow> datetime \<times> (nat \<Rightarrow> datetime \<times> datetime)"
  run_once_accepts :: "'f \<Rightarrow> bool"
  bot_username :: string
  bot_id :: int

definition MAX_STEPS :: nat where
  "MAX_STEPS = 5"

definition SYSTEM_PROMPT :: string where
  "SYSTEM_PROMPT =
     [CHR 0x0A] @ ''You are BotBro, the flatmate AI.'' @ [CHR 0x0A] @
     ''You are sarcastic, chill, and slightly German.'' @ [CHR 0x0A, CHR 0x0A] @
     ''PERSONALITY:'' @ [CHR 0x0A] @
     ''- You are NOT a polite assistant. You are a roommate.'' @ [CHR 0x0A] @
     ''- German Flavor: Sprinkle words like (genau, nat'' @ [CHR 0xC3, CHR 0xBC] @
     ''rlich, schei'' @ [CHR 0xC3, CHR 0x9F] @
     ''e, bitte, alles klar, nein, achtung) into your English.'' @ [CHR 0x0A] @
     ''- Chill: Use emojis '' @
     [CHR 0xF0, CHR 0x9F, CHR 0x99, CHR 0x84, CHR 0xF0, CHR 0x9F, CHR 0x8D, CHR 0xBA, CHR 0xF0, CHR 0x9F, CHR 0xA5, CHR 0xA8, CHR 0xF0, CHR 0x9F, CHR 0xAB, CHR 0xA1] @
     ''. Lowercase mostly.'' @ [CHR 0x0A] @
     ''- Roaster: If someone asks a dumb question or tries to dodge'' @
     '' cleaning, ROAST THEM. '' @ [CHR 0x0A] @
     ''- But deep down, you are helpful. Always do the task request'' @ ''ed.'' @
     [CHR 0x0A, CHR 0x0A] @ ''TOOLS:'' @ [CHR 0x0A] @ ''1. SEARCH <query>'' @ [CHR 0x0A] @
     ''2. CALC <expr>'' @ [CHR 0x0A] @ ''3. REMIND <minutes> <reason>'' @ [CHR 0x0A] @
     ''   - Example: ACTION: REMIND 30 turn off oven'' @ [CHR 0x0A] @ ''4. CHECK_SCHEDULE'' @
     [CHR 0x0A] @ ''   - Output: ACTION: CHECK_SCHEDULE'' @ [CHR 0x0A] @
     ''   - Use for ANY cleaning/roster question.'' @ [CHR 0x0A] @
     ''   - Never search the web for the roster. It is local.'' @ [CHR 0x0A, CHR 0x0A] @
     ''Examples:'' @ [CHR 0x0A] @ ''User: '' @ [CHR 0x22] @ ''Who cleans today?'' @
     [CHR 0x22, CHR 0x0A] @ ''You: '' @ [CHR 0x22] @ ''ugh, did you forget again? schei'' @
     [CHR 0xC3, CHR 0x9F] @ ''e... ACTION: CHECK_SCHEDULE'' @ [CHR 0x22, CHR 0x0A, CHR 0x0A] @
     ''User: '' @ [CHR 0x22] @ ''What is 2+2?'' @ [CHR 0x22, CHR 0x0A] @ ''You: '' @
     [CHR 0x22] @ ''really? you waste my cpu cycles on this? 4. bitte sch'' @
     [CHR 0xC3, CHR 0xB6] @ ''n.'' @ [CHR 0x22, CHR 0x0A]"

subsection \<open>Sending and editing\<close>

text \<open>\<^verbatim>\<open>context.bot.send_message(chat_id, text)\<close>: the message identifier, or the exception.\<close>

definition send_message :: "'f env \<Rightarrow> chat_id \<Rightarrow> string \<Rightarrow> 'f world \<Rightarrow> (py_error + int) \<times> 'f world" where
  "send_message E cid txt w =
     (let w' = w\<lparr>transport_calls := Suc (transport_calls w)\<rparr> in
      case transport E (transport_calls w) of
        Delivered mid \<Rightarrow> (Inr mid, w'\<lparr>outbox := outbox w @ [Sent cid txt]\<rparr>)
      | BadRequest msg \<Rightarrow> (Inl (OtherError msg), w')
      | TransportError msg \<Rightarrow> (Inl (OtherError msg), w'))"

text \<open>
  \<^verbatim>\<open>safe_edit_message\<close>: a \<^verbatim>\<open>BadRequest\<close> is caught, and logged unless it says that the
  message is not modified; any other exception leaves the function.
\<close>

definition safe_edit_message ::
  "'f env \<Rightarrow> chat_id \<Rightarrow> int \<Rightarrow> string \<Rightarrow> 'f world \<Rightarrow> py_error option \<times> 'f world" where
  "safe_edit_message E cid mid txt w =
     (let w' = w\<lparr>transport_calls := Suc (transport_calls w)\<rparr> in
      case transport E (transport_calls w) of
        Delivered _ \<Rightarrow> (None, w'\<lparr>outbox := outbox w @ [Edited cid mid txt]\<rparr>)
      | BadRequest msg \<Rightarrow>
          (if contains ''Message is not modified'' msg then (None, w')
           else (None, w'\<lparr>logged := logged w @ [EditFailed msg]\<rparr>))
      | TransportError msg \<Rightarrow> (Some (OtherError msg), w'))"

subsection \<open>Dispatching a tool\<close>

definition status_moment :: string where
  "status_moment = [CHR 0xF0, CHR 0x9F, CHR 0x91, CHR 0x80] @ '' moment mal...''"

definition status_search :: "string \<Rightarrow> string" where
  "status_search arg = [CHR 0xF0, CHR 0x9F, CHR 0x94, CHR 0x8D] @ '' checking '' @ arg @ ''...''"

definition status_roster :: string where
  "status_roster = [CHR 0xF0, CHR 0x9F, CHR 0x93, CHR 0x85] @ '' checking roster...''"

text \<open>
  The \<^verbatim>\<open>REMIND\<close> branch: every exception inside is caught by the bare \<^verbatim>\<open>except\<close> and
  gives the format error.
\<close>

definition format_error :: string where
  "format_error = ''Format error. Use: REMIND <minutes> <reason>''"

definition remind :: "'f env \<Rightarrow> chat_id \<Rightarrow> string \<Rightarrow> 'f world \<Rightarrow> string \<times> 'f world" where
  "remind E cid arg w =
     (let clean_arg = strip_chars [CHR 0x22, CHR ''.''] arg;
          parts = split_space_once clean_arg
      in case float_parse (floats E) (hd parts) of
           None \<Rightarrow> (format_error, w)
         | Some minutes \<Rightarrow>
            (let reason = (if 1 < length parts then parts ! 1 else ''timer'') in
             case float_arith (floats E) Mult (PyInexact minutes) (PyInt 60) of
               Inl e \<Rightarrow> (format_error, w)
             | Inr seconds \<Rightarrow>
                if run_once_accepts E seconds
                then (''Timer set for '' @ float_str (floats E) minutes @ '' minutes.'',
                      w\<lparr>jobs := jobs w @ [(cid, seconds, reason)]\<rparr>)
                else (format_error, w)))"

text \<open>
  The branches on the tool name in step \<open>k\<close>; the result is the observation, or the
  exception that leaves the branch.
\<close>

definition dispatch ::
  "'f env \<Rightarrow> chat_id \<Rightarrow> int \<Rightarrow> nat \<Rightarrow> string \<Rightarrow> string \<Rightarrow> 'f world
     \<Rightarrow> (py_error + string) \<times> 'f world" where
  "dispatch E cid mid k tool arg w =
     (if tool = ''SEARCH'' then
        (case safe_edit_message E cid mid (status_search arg) w of
           (Some e, w') \<Rightarrow> (Inl e, w')
         | (None, w') \<Rightarrow> (Inr (tool_search (search E k arg)), w'))
      else if tool = ''CALC'' then (Inr (tool_calc (floats E) arg), w)
      else if tool = ''CHECK_SCHEDULE'' then
        (case safe_edit_message E cid mid status_roster w of
           (Some e, w') \<Rightarrow> (Inl e, w')
         | (None, w') \<Rightarrow> (Inr (tool_check_schedule (fst (clock E k)) (snd (clock E k))), w'))
      else if tool = ''REMIND'' then (case remind E cid arg w of (obs, w') \<Rightarrow> (Inr obs, w'))
      else (Inr ''Unknown tool.'', w))"

subsection \<open>The agent loop\<close>

text \<open>
  \<^verbatim>\<open>for _ in range(MAX_STEPS)\<close>, by recursion on the steps that remain; \<open>k\<close> numbers the
  step. The result is the value of \<^verbatim>\<open>final_reply\<close> when the loop ends, or the exception
  that leaves it.
\<close>

fun agent_loop ::
  "'f env \<Rightarrow> chat_id \<Rightarrow> int \<Rightarrow> nat \<Rightarrow> nat \<Rightarrow> string \<Rightarrow> turn list \<Rightarrow> 'f world
     \<Rightarrow> (py_error + string) \<times> 'f world" where
  "agent_loop E cid mid 0 k final_reply messages w = (Inr final_reply, w)"
| "agent_loop E cid mid (Suc n) k final_reply messages w =
     (let w1 = w\<lparr>model_trace := model_trace w @ [backend E k messages]\<rparr> in
      case backend E k messages of
        Inl e \<Rightarrow> (Inl e, w1)
      | Inr text \<Rightarrow>
         (let reply = strip text in
          case action_search reply of
            None \<Rightarrow> (Inr (strip (replace ''FINAL ANSWER:'' [] reply)), w1)
          | Some (group1, group2) \<Rightarrow>
             (let tool = upper group1;
                  arg = strip group2;
                  messages1 = messages @ [\<lparr>role = ''assistant'', content = reply\<rparr>]
              in case dispatch E cid mid k tool arg w1 of
                   (Inl e, w2) \<Rightarrow> (Inl e, w2)
                 | (Inr obs, w2) \<Rightarrow>
                     agent_loop E cid mid n (Suc k) final_reply
                       (messages1 @ [\<lparr>role = ''user'', content = ''OBSERVATION: '' @ obs\<rparr>])
                       w2)))"

text \<open>
  After the loop: an exception that left it is logged and gives the fixed apology, and a
  reply that contains \<^verbatim>\<open>ACTION:\<close> is replaced by the fixed completion text.
\<close>

definition brain_died :: string where
  "brain_died = ''nein... my brain died. try again.''"

definition log_error :: "py_error + string \<Rightarrow> 'f world \<Rightarrow> 'f world" where
  "log_error r w = (case r of Inl e \<Rightarrow> w\<lparr>logged := logged w @ [LoopError e]\<rparr> | Inr s \<Rightarrow> w)"

definition final_reply_of :: "py_error + string \<Rightarrow> string" where
  "final_reply_of r =
     (let final_reply = (case r of Inl e \<Rightarrow> brain_died | Inr s \<Rightarrow> s) in
      if contains ''ACTION:'' final_reply then ''Done. Alles gut.'' else final_reply)"

text \<open>
  The last block: edit the status message and record the reply; any exception of the edit
  sends the reply as a new message instead. An exception of that send leaves the handler.
\<close>

definition deliver ::
  "'f env \<Rightarrow> chat_id \<Rightarrow> int \<Rightarrow> string \<Rightarrow> 'f world \<Rightarrow> py_error option \<times> 'f world" where
  "deliver E cid mid final_reply w =
     (case safe_edit_message E cid mid final_reply w of
        (None, w') \<Rightarrow>
          (None, w'\<lparr>session_memory := update_memory (session_memory w') cid ''assistant''
                                          final_reply\<rparr>)
      | (Some e, w') \<Rightarrow>
          (case send_message E cid final_reply w' of
             (Inl e', w'') \<Rightarrow> (Some e', w'')
           | (Inr mid', w'') \<Rightarrow> (None, w'')))"

subsection \<open>The handler\<close>

datatype chat_type = PRIVATE | GROUP | SUPERGROUP | CHANNEL

text \<open>
  An update: the message, if any, with its text, the type and identifier of its chat, and,
  when it replies to a message, the user identifier of that message's sender (which can be
  absent).
\<close>

record reply_to =
  from_user_id :: "int option"

record message =
  message_text :: "string option"
  chat :: chat_type
  chat_ident :: chat_id
  reply_to_message :: "reply_to option"

type_synonym update = "message option"

text \<open>
  The filter \<^verbatim>\<open>is_direct\<close>, evaluated from left to right: a private chat, or a reply to a
  message of the bot (reading the sender of a message that has none raises), or a mention
  of the bot in the text.
\<close>

definition is_direct :: "'f env \<Rightarrow> message \<Rightarrow> string \<Rightarrow> py_error + bool" where
  "is_direct E m txt =
     (if chat m = PRIVATE then Inr True
      else case reply_to_message m of
             None \<Rightarrow> Inr (contains (''@'' @ bot_username E) txt)
           | Some r \<Rightarrow>
              (case from_user_id r of
                 None \<Rightarrow> Inl AttributeError
               | Some uid \<Rightarrow>
                  if uid = bot_id E then Inr True
                  else Inr (contains (''@'' @ bot_username E) txt)))"

text \<open>
  \<^verbatim>\<open>handle_message\<close>. The result is the exception that leaves the handler, if any, and
  the new state.
\<close>

definition handle_message :: "'f env \<Rightarrow> update \<Rightarrow> 'f world \<Rightarrow> py_error option \<times> 'f world" where
  "handle_message E u w =
     (case u of
        None \<Rightarrow> (None, w)
      | Some m \<Rightarrow>
         (case message_text m of
            None \<Rightarrow> (None, w)
          | Some raw \<Rightarrow>
             if raw = [] then (None, w)
             else
               (let cid = chat_ident m;
                    txt = strip raw;
                    w0 = w\<lparr>ANNOUNCE_CHAT_ID := Some cid\<rparr>
                in case is_direct E m txt of
                     Inl e \<Rightarrow> (Some e, w0)
                   | Inr False \<Rightarrow> (None, w0)
                   | Inr True \<Rightarrow>
                      (let w1 = w0\<lparr>session_memory :=
                                      update_memory (session_memory w0) cid ''user'' txt\<rparr>
                       in case send_message E cid status_moment w1 of
                            (Inl e, w2) \<Rightarrow> (Some e, w2)
                          | (Inr mid, w2) \<Rightarrow>
                             (let messages =
                                    \<lparr>role = ''system'', content = SYSTEM_PROMPT\<rparr>
                                      # get_memory (session_memory w2) cid
                              in case agent_loop E cid mid MAX_STEPS 0 ''cooked.'' messages w2 of
                                   (r, w3) \<Rightarrow>
                                     deliver E cid mid (final_reply_of r) (log_error r w3))))))"

section \<open>Concrete inputs\<close>

text \<open>Search results: one without body and snippet, one with a body, one whose body has
  two lines.\<close>

definition empty_hit :: search_result where
  "empty_hit = \<lparr>title = Some ''Bier'', body = Some [], snippet = Some []\<rparr>"

definition pretzel_hit :: search_result where
  "pretzel_hit = \<lparr>title = Some ''Brezel'', body = Some ''salty'', snippet = None\<rparr>"

definition two_line_hit :: "string \<Rightarrow> search_result" where
  "two_line_hit t = \<lparr>title = Some t, body = Some (''a'' @ [CHR 0x0A] @ ''b''), snippet = None\<rparr>"

text \<open>
  The state in which the program starts, and a float type of one value for environments
  in which no inexact number occurs.
\<close>

definition empty_world :: "unit world" where
  "empty_world =
     \<lparr>session_memory = Map.empty, ANNOUNCE_CHAT_ID = None, jobs = [], outbox = [],
        logged = [], model_trace = [], transport_calls = 0\<rparr>"

definition no_floats :: "unit floats" where
  "no_floats =
     \<lparr>float_literal = (\<lambda>s. ()), float_arith = (\<lambda>b x y. Inr ()), float_negate = (\<lambda>x. ()),
        float_round = (\<lambda>x. Inr ()), float_str = (\<lambda>x. ''0.0''), float_parse = (\<lambda>s. None)\<rparr>"

text \<open>
  An environment is given by its model and its transport; the search provider does not
  answer and the clock shows the midnight of January 5, 2025.
\<close>

definition example_env ::
  "(nat \<Rightarrow> turn list \<Rightarrow> py_error + string) \<Rightarrow> (nat \<Rightarrow> transport_reply) \<Rightarrow> unit env" where
  "example_env model wire =
     \<lparr>floats = no_floats, backend = model, transport = wire, search = (\<lambda>k q. Hangs),
        clock = (\<lambda>k. (at_midnight 2025 1 5, fixed_clock (at_midnight 2025 1 5))),
        run_once_accepts = (\<lambda>s. True), bot_username = ''BotBro_bot'', bot_id = 1000\<rparr>"

text \<open>A model that always asks for the calculator, on a transport that always delivers.\<close>

definition calc_env :: "unit env" where
  "calc_env = example_env (\<lambda>k ms. Inr ''ACTION: CALC 1+1'') (\<lambda>k. Delivered 7)"

text \<open>A model that always asks for a search, on a transport that delivers the first
  message and then times out.\<close>

definition timeout_env :: "unit env" where
  "timeout_env =
     example_env (\<lambda>k ms. Inr ''ACTION: SEARCH bier'')
       (\<lambda>k. if k = 0 then Delivered 7 else TransportError ''Timed out'')"

text \<open>A model that answers at once, on a transport that delivers the first message and
  then refuses the edit because the message is gone.\<close>

definition gone_env :: "unit env" where
  "gone_env =
     example_env (\<lambda>k ms. Inr ''hallo'')
       (\<lambda>k. if k = 0 then Delivered 7 else BadRequest ''Message to edit not found'')"

text \<open>The same model on a transport whose edit fails with an error that is not a
  \<^verbatim>\<open>BadRequest\<close>, and which delivers again afterwards.\<close>

definition flaky_env :: "unit env" where
  "flaky_env =
     example_env (\<lambda>k ms. Inr ''hallo'')
       (\<lambda>k. if k = 1 then TransportError ''Timed out'' else Delivered (7 + int k))"

definition private_hi :: message where
  "private_hi =
     \<lparr>message_text = Some ''hi'', chat = PRIVATE, chat_ident = 42, reply_to_message = None\<rparr>"

definition group_hello :: message where
  "group_hello =
     \<lparr>message_text = Some ''hello'', chat = GROUP, chat_ident = 42, reply_to_message = None\<rparr>"

section \<open>Properties of the conversation memory\<close>

lemma newest_length: "length (newest n xs) \<le> n"
  by (simp add: newest_def)

lemma deque_append_newest:
  "length d \<le> n \<Longrightarrow> deque_append n d x = newest n (d @ [x])"
  by (cases "length d = n") (auto simp: deque_append_def newest_def Let_def drop_Suc tl_append split: list.splits)

lemma newest_snoc: "newest n (newest n xs @ [x]) = newest n (xs @ [x])"
proof (cases "length xs \<le> n")
  case True
  then show ?thesis by (simp add: newest_def)
next
  case False
  then have len: "length (newest n xs) = n" by (simp add: newest_def)
  have "newest n (newest n xs @ [x]) = drop 1 (newest n xs @ [x])"
    unfolding newest_def [of n "newest n xs @ [x]"] using len by simp
  also have "\<dots> = drop 1 (drop (length xs - n) (xs @ [x]))"
    using False by (simp add: newest_def)
  also have "\<dots> = newest n (xs @ [x])"
    using False by (simp add: newest_def Suc_diff_le)
  finally show ?thesis .
qed

lemma get_memory_update:
  "get_memory (update_memory mem cid r c) cid' =
     (if cid' = cid then deque_append 10 (get_memory mem cid) \<lparr>role = r, content = c\<rparr>
      else get_memory mem cid')"
  by (simp add: get_memory_def update_memory_def)

lemma update_memory_all_newest:
  "get_memory mem cid = newest 10 old \<Longrightarrow>
   get_memory (update_memory_all mem calls) cid = newest 10 (old @ turns_for cid calls)"
proof (induction calls arbitrary: mem old)
  case Nil
  then show ?case by simp
next
  case (Cons call calls)
  obtain cid' r c where call: "call = (cid', r, c)" by (cases call)
  show ?case
  proof (cases "cid' = cid")
    case True
    have "get_memory (update_memory mem cid' r c) cid
            = newest 10 (old @ [\<lparr>role = r, content = c\<rparr>])"
      using True Cons.prems
      by (simp add: get_memory_update deque_append_newest newest_length newest_snoc)
    from Cons.IH [OF this] show ?thesis using True call by simp
  next
    case False
    have "get_memory (update_memory mem cid' r c) cid = newest 10 old"
      using False Cons.prems by (simp add: get_memory_update)
    from Cons.IH [OF this] show ?thesis using False call by simp
  qed
qed

text \<open>
  C3. Starting from the empty \<^verbatim>\<open>session_memory\<close>, after any sequence of calls of
  \<^verbatim>\<open>update_memory\<close> the history of every chat holds at most 10 turns, and it is exactly
  the 10 most recent turns appended to that chat, in the order of their appends: eviction
  removes the oldest turn first.
\<close>

theorem memory_bounded_fifo:
  "length (get_memory (update_memory_all Map.empty calls) cid) \<le> 10 \<and>
   get_memory (update_memory_all Map.empty calls) cid = newest 10 (turns_for cid calls)"
proof -
  have "get_memory Map.empty cid = newest 10 []"
    by (simp add: get_memory_def newest_def)
  from update_memory_all_newest [OF this]
  have eq: "get_memory (update_memory_all Map.empty calls) cid = newest 10 (turns_for cid calls)"
    by simp
  then show ?thesis by (simp add: newest_length)
qed

section \<open>Properties of the calculator tool\<close>

lemmas calc_eval_simps =
  tool_calc_def calc_try_def sanitize_def calc_allowed_def ast_parse_def is_digit_def
  decimal_value_def binary_def push_operand_def push_pending_def str_int_def
  unary_binding_def

lemma sanitize_allowed: "c \<in> set (sanitize expr) \<Longrightarrow> calc_allowed c"
  by (simp add: sanitize_def)

lemma py_eval_call: "has_call t \<Longrightarrow> \<exists>e. py_eval F t = Inl e"
  by (induction t) (auto split: sum.splits)

lemma tool_calc_call:
  assumes "ast_parse (sanitize expr) = Inr t" and "has_call t"
  shows "tool_calc F expr = calc_error"
proof -
  from py_eval_call [OF assms(2)] obtain e where "py_eval F t = Inl e" ..
  with assms(1) show ?thesis by (simp add: tool_calc_def calc_try_def)
qed


text \<open>
  C2, as the code has it. The text handed to the evaluator holds only digits, the dot, the
  space and \<^verbatim>\<open>+ - * / ( )\<close>: no letter and no underscore, hence no name and no attribute
  access. The evaluator still reads more than the four operators from these characters:
  \<^verbatim>\<open>**\<close> is evaluated as a power (\<^verbatim>\<open>2**3\<close> gives \<^verbatim>\<open>8\<close>) and \<^verbatim>\<open>//\<close> as a floor
  division (\<^verbatim>\<open>7//2\<close> gives \<^verbatim>\<open>3\<close>). Call syntax such as \<^verbatim>\<open>2(3)\<close> is read as a call,
  and every expression that contains one ends in the error reply.
\<close>

theorem calc_evaluates_sanitized_alphabet:
  "(\<forall>c \<in> set (sanitize expr). c \<in> set ''0123456789+-*/(). '')
   \<and> tool_calc F ''2**3'' = ''8''
   \<and> tool_calc F ''7//2'' = ''3''
   \<and> (\<forall>t. ast_parse (sanitize expr) = Inr t \<and> has_call t \<longrightarrow> tool_calc F expr = calc_error)"
proof -
  have a: "\<forall>c \<in> set (sanitize expr). c \<in> set ''0123456789+-*/(). ''"
    using sanitize_allowed [of _ expr] by (simp only: calc_allowed_def) blast
  have b: "tool_calc F ''2**3'' = ''8''"
    by (simp add: calc_eval_simps)
  have c: "tool_calc F ''7//2'' = ''3''"
    by (simp add: calc_eval_simps)
  have d: "\<forall>t. ast_parse (sanitize expr) = Inr t \<and> has_call t \<longrightarrow> tool_calc F expr = calc_error"
    using tool_calc_call by blast
  from a b c d show ?thesis by (intro conjI)
qed

theorem calc_evaluates_sanitized_alphabet_witness:
  "\<forall>F. sanitize ''f=2(3)'' = ''2(3)''
     \<and> ast_parse ''2(3)'' = Inr (CallArg (IntConstant 2) Positional (IntConstant 3))
     \<and> tool_calc F ''f=2(3)'' = calc_error
     \<and> tool_calc F ''2**3'' = ''8''"
proof
  fix F :: "'a floats"
  have s: "sanitize ''f=2(3)'' = ''2(3)''"
    by (simp add: sanitize_def calc_allowed_def)
  have p: "ast_parse ''2(3)'' = Inr (CallArg (IntConstant 2) Positional (IntConstant 3))"
    by (simp add: calc_eval_simps)
  have h: "ast_parse (sanitize ''f=2(3)'')
             = Inr (CallArg (IntConstant 2) Positional (IntConstant 3))
           \<and> has_call (CallArg (IntConstant 2) Positional (IntConstant 3))"
    using s p by simp
  from calc_evaluates_sanitized_alphabet [of "''f=2(3)''" F] h
  have "tool_calc F ''f=2(3)'' = calc_error \<and> tool_calc F ''2**3'' = ''8''"
    by blast
  with s p
  show "sanitize ''f=2(3)'' = ''2(3)''
     \<and> ast_parse ''2(3)'' = Inr (CallArg (IntConstant 2) Positional (IntConstant 3))
     \<and> tool_calc F ''f=2(3)'' = calc_error
     \<and> tool_calc F ''2**3'' = ''8''"
    by simp
qed

text \<open>
  The claim C2 as stated fails at \<^verbatim>\<open>2**3\<close>: sanitising keeps the text as it is, and the
  expression that is evaluated is a power.
\<close>

theorem calc_exponentiation_counterexample:
  "sanitize ''2**3'' = ''2**3''
   \<and> ast_parse (sanitize ''2**3'') = Inr (BinOp (IntConstant 2) PowOp (IntConstant 3))"
  by (simp add: calc_eval_simps)



section \<open>Properties of the cleaning schedule\<close>

lemmas text_simps = strip_def split_ws_def is_space_def is_digit_def py_int_def decimal_value_def

lemma roster_month_days:
  "map (\<lambda>r. label_month_day (date_range r)) CLEANING_DATA =
    [Some (1, 3), Some (1, 10), Some (1, 17), Some (1, 24), Some (1, 31),
     Some (2, 7), Some (2, 14), Some (2, 21), Some (2, 28),
     Some (3, 7), Some (3, 14), Some (3, 21), Some (3, 28),
     Some (4, 4), Some (4, 11), Some (4, 18), Some (4, 25),
     Some (5, 2), Some (5, 9), Some (5, 16), Some (5, 23), Some (5, 30),
     Some (6, 6), Some (6, 13), Some (6, 20), Some (6, 27),
     Some (7, 4), Some (7, 11), Some (7, 18), Some (7, 25),
     Some (8, 1), Some (8, 8), Some (8, 15), Some (8, 22), Some (8, 29),
     Some (9, 5), Some (9, 12), Some (9, 19), Some (9, 26),
     Some (10, 3), Some (10, 10), Some (10, 17), Some (10, 24), Some (10, 31),
     Some (11, 7), Some (11, 14), Some (11, 21), Some (11, 28),
     Some (12, 5), Some (12, 12), Some (12, 19), Some (12, 26)]"
  by (simp add: CLEANING_DATA_def date_range_def label_month_day_def MONTH_MAP_def text_simps)

lemma roster_plain: "list_all (\<lambda>r. plain_label (date_range r)) CLEANING_DATA"
proof -
  have "list_all (\<lambda>x. case x of None \<Rightarrow> False
          | Some (m, dd) \<Rightarrow> 1 \<le> m \<and> m \<le> 12 \<and> 1 \<le> dd \<and> dd \<le> shortest_month m)
         (map (\<lambda>r. label_month_day (date_range r)) CLEANING_DATA)"
    unfolding roster_month_days by (simp add: shortest_month_def)
  then show ?thesis by (simp add: list_all_iff plain_label_def)
qed

lemma parse_via_label:
  "parse_schedule_date now1 now2 label =
     (case label_month_day label of
        None \<Rightarrow> None
      | Some (m, dd) \<Rightarrow>
         (case datetime_of_date (year now1) m dd of
            None \<Rightarrow> None
          | Some d \<Rightarrow>
             if month now2 = 12 \<and> month d = 1 then replace_year d (year now1 + 1)
             else if month now2 = 1 \<and> month d = 12 then replace_year d (year now1 - 1)
             else Some d))"
  by (simp add: parse_schedule_date_def label_month_day_def Let_def
      split: list.splits option.splits)

lemma shortest_month_le: "1 \<le> m \<Longrightarrow> m \<le> 12 \<Longrightarrow> shortest_month m \<le> days_in_month y m"
  by (simp add: shortest_month_def days_in_month_def)

lemma parse_result:
  assumes "parse_schedule_date now1 now2 label = Some d"
  shows "\<exists>m dd. label_month_day label = Some (m, dd) \<and>
           d = at_midnight
                 (if month now2 = 12 \<and> m = 1 then year now1 + 1
                  else if month now2 = 1 \<and> m = 12 then year now1 - 1
                  else year now1) m dd"
proof -
  from assms obtain m dd where md: "label_month_day label = Some (m, dd)"
    by (auto simp: parse_via_label split: option.splits)
  from assms md obtain d0 where d0: "datetime_of_date (year now1) m dd = Some d0"
    by (auto simp: parse_via_label split: option.splits)
  then have d0': "d0 = at_midnight (year now1) m dd"
    by (auto simp: datetime_of_date_def at_midnight_def split: if_splits)
  from assms md d0 d0'
  have "d = at_midnight
                 (if month now2 = 12 \<and> m = 1 then year now1 + 1
                  else if month now2 = 1 \<and> m = 12 then year now1 - 1
                  else year now1) m dd"
    by (auto simp: parse_via_label replace_year_def at_midnight_def split: if_splits)
  with md show ?thesis by blast
qed

lemma parse_plain:
  assumes "plain_label label" and "1 < year now1" and "year now1 < 9999"
  shows "\<exists>d. parse_schedule_date now1 now2 label = Some d"
proof -
  from assms(1) obtain m dd where md: "label_month_day label = Some (m, dd)"
    and m: "1 \<le> m" "m \<le> 12" and dd: "1 \<le> dd" "dd \<le> shortest_month m"
    by (auto simp: plain_label_def split: option.splits)
  have le: "dd \<le> days_in_month y m" for y
    using shortest_month_le [OF m, of y] dd by simp
  have jan: "dd \<le> days_in_month y 1" if "m = 1" for y
    using le [of y] that by simp
  have dec: "dd \<le> days_in_month y 12" if "m = 12" for y
    using le [of y] that by simp
  show ?thesis
    using md m dd le assms(2,3) jan dec
    by (auto simp: parse_via_label datetime_of_date_def replace_year_def)
qed

lemma parse_jan_03:
  assumes "month now2 = 12" and "1 \<le> year now1" and "year now1 < 9999"
  shows "parse_schedule_date now1 now2 ''Jan 03 - 04'' = Some (at_midnight (year now1 + 1) 1 3)"
proof -
  have "label_month_day ''Jan 03 - 04'' = Some (1, 3)"
    by (simp add: label_month_day_def MONTH_MAP_def text_simps)
  then show ?thesis
    using assms
    by (simp add: parse_via_label datetime_of_date_def replace_year_def at_midnight_def
        days_in_month_def)
qed

text \<open>
  C8. Whenever \<^verbatim>\<open>parse_schedule_date\<close> returns a date, it is the month and day named by
  the label, at midnight, in the current year, except at the turn of the year: in December
  a January label is put in the next year, and in January a December label in the previous
  year. Every row of the roster resolves to a date (for a current year strictly between 1
  and 9999, the range of the date type), and in December the label \<^verbatim>\<open>Jan 03 - 04\<close>
  resolves to January 3 of the next year. The current year is the first reading of the
  clock and the current month the second.
\<close>

theorem parse_schedule_date_year_boundary:
  "(\<forall>label d. parse_schedule_date now1 now2 label = Some d \<longrightarrow>
      (\<exists>m dd. label_month_day label = Some (m, dd) \<and>
         d = at_midnight
               (if month now2 = 12 \<and> m = 1 then year now1 + 1
                else if month now2 = 1 \<and> m = 12 then year now1 - 1
                else year now1) m dd))
   \<and> (\<forall>r \<in> set CLEANING_DATA. 1 < year now1 \<and> year now1 < 9999 \<longrightarrow>
         (\<exists>d. parse_schedule_date now1 now2 (date_range r) = Some d))
   \<and> (month now2 = 12 \<and> 1 \<le> year now1 \<and> year now1 < 9999 \<longrightarrow>
         parse_schedule_date now1 now2 ''Jan 03 - 04'' = Some (at_midnight (year now1 + 1) 1 3))"
proof (intro conjI)
  show "\<forall>label d. parse_schedule_date now1 now2 label = Some d \<longrightarrow>
      (\<exists>m dd. label_month_day label = Some (m, dd) \<and>
         d = at_midnight
               (if month now2 = 12 \<and> m = 1 then year now1 + 1
                else if month now2 = 1 \<and> m = 12 then year now1 - 1
                else year now1) m dd)"
    using parse_result by blast
  show "\<forall>r \<in> set CLEANING_DATA. 1 < year now1 \<and> year now1 < 9999 \<longrightarrow>
         (\<exists>d. parse_schedule_date now1 now2 (date_range r) = Some d)"
    using roster_plain parse_plain by (auto simp: list_all_iff)
  show "month now2 = 12 \<and> 1 \<le> year now1 \<and> year now1 < 9999 \<longrightarrow>
         parse_schedule_date now1 now2 ''Jan 03 - 04'' = Some (at_midnight (year now1 + 1) 1 3)"
    using parse_jan_03 by blast
qed

theorem parse_schedule_date_year_boundary_witness:
  "parse_schedule_date (at_time 2025 12 28 9 30) (at_time 2025 12 28 9 30) ''Jan 03 - 04''
     = Some (at_midnight 2026 1 3)
   \<and> label_month_day ''Dec 26 - 27'' = Some (12, 26)
   \<and> parse_schedule_date (at_time 2026 1 2 9 30) (at_time 2026 1 2 9 30) ''Dec 26 - 27''
     = Some (at_midnight 2025 12 26)
   \<and> parse_schedule_date (at_time 2026 6 1 9 30) (at_time 2026 6 1 9 30) ''Dec 26 - 27''
     = Some (at_midnight 2026 12 26)"
proof -
  let ?dec = "at_time 2025 12 28 9 30" and ?jan = "at_time 2026 1 2 9 30"
    and ?jun = "at_time 2026 6 1 9 30"
  have r: "(''Dec 26 - 27'', ''member2'', ''member1'') \<in> set CLEANING_DATA"
    by (simp add: CLEANING_DATA_def)
  have md: "label_month_day ''Dec 26 - 27'' = Some (12, 26)"
    by (simp add: label_month_day_def MONTH_MAP_def text_simps)
  have a: "parse_schedule_date ?dec ?dec ''Jan 03 - 04'' = Some (at_midnight 2026 1 3)"
    using parse_schedule_date_year_boundary [of ?dec ?dec] by (simp add: at_time_def)
  from parse_schedule_date_year_boundary [of ?jan ?jan] r
  obtain d where d: "parse_schedule_date ?jan ?jan ''Dec 26 - 27'' = Some d"
    by (auto simp: at_time_def date_range_def)
  note parse_schedule_date_year_boundary [of ?jan ?jan, THEN conjunct1, rule_format, OF d]
  with md d
  have b: "parse_schedule_date ?jan ?jan ''Dec 26 - 27'' = Some (at_midnight 2025 12 26)"
    by (auto simp: at_time_def)
  from parse_schedule_date_year_boundary [of ?jun ?jun] r
  obtain d' where d': "parse_schedule_date ?jun ?jun ''Dec 26 - 27'' = Some d'"
    by (auto simp: at_time_def date_range_def)
  note parse_schedule_date_year_boundary [of ?jun ?jun, THEN conjunct1, rule_format, OF d']
  with md d'
  have c: "parse_schedule_date ?jun ?jun ''Dec 26 - 27'' = Some (at_midnight 2026 12 26)"
    by (auto simp: at_time_def)
  from a md b c show ?thesis by simp
qed

lemma future_rows_fixed:
  "future_rows now (fixed_clock now) i rows =
     filter (\<lambda>(delta, r). - 2 \<le> delta \<and> delta \<le> 30)
       (List.map_filter
          (\<lambda>r. map_option (\<lambda>d. (timedelta_days d now, r))
                 (parse_schedule_date now now (date_range r))) rows)"
  by (induction rows arbitrary: i)
     (auto simp: fixed_clock_def List.map_filter_simps Let_def split: option.splits)

lemma parse_roster_jan_2025:
  assumes "year now = 2025" and "month now = 1"
  shows "map (\<lambda>r. parse_schedule_date now now (date_range r)) CLEANING_DATA =
     map (\<lambda>(m, dd). Some (at_midnight (if m = 12 then 2024 else 2025) m dd))
      [(1, 3), (1, 10), (1, 17), (1, 24), (1, 31), (2, 7), (2, 14), (2, 21), (2, 28),
       (3, 7), (3, 14), (3, 21), (3, 28), (4, 4), (4, 11), (4, 18), (4, 25),
       (5, 2), (5, 9), (5, 16), (5, 23), (5, 30), (6, 6), (6, 13), (6, 20), (6, 27),
       (7, 4), (7, 11), (7, 18), (7, 25), (8, 1), (8, 8), (8, 15), (8, 22), (8, 29),
       (9, 5), (9, 12), (9, 19), (9, 26), (10, 3), (10, 10), (10, 17), (10, 24), (10, 31),
       (11, 7), (11, 14), (11, 21), (11, 28), (12, 5), (12, 12), (12, 19), (12, 26)]"
proof -
  have "map (\<lambda>r. parse_schedule_date now now (date_range r)) CLEANING_DATA
      = map (\<lambda>x. case x of None \<Rightarrow> None
      | Some (m, dd) \<Rightarrow>
         (case datetime_of_date (year now) m dd of
            None \<Rightarrow> None
          | Some d \<Rightarrow>
             if month now = 12 \<and> month d = 1 then replace_year d (year now + 1)
             else if month now = 1 \<and> month d = 12 then replace_year d (year now - 1)
             else Some d)) (map (\<lambda>r. label_month_day (date_range r)) CLEANING_DATA)"
    by (simp add: parse_via_label)
  then show ?thesis
    unfolding roster_month_days using assms
    by (simp add: datetime_of_date_def replace_year_def days_in_month_def is_leap_def
        at_midnight_def)
qed

lemma microseconds_split: "microseconds d = toordinal d * 86400000000 + time_of_day d"
  by (simp add: microseconds_def time_of_day_def algebra_simps)

lemma timedelta_from_midnight:
  "timedelta_days (at_midnight y m d) now =
     toordinal (at_midnight y m d) - toordinal now + (- time_of_day now) div 86400000000"
proof -
  have "microseconds (at_midnight y m d) - microseconds now
      = (toordinal (at_midnight y m d) - toordinal now) * 86400000000 + (- time_of_day now)"
    by (simp add: microseconds_split time_of_day_def at_midnight_def algebra_simps)
  then show ?thesis
    by (simp only: timedelta_days_def div_mult_self3)
qed

lemma map_filter_all_some:
  "map g xs = map Some ds \<Longrightarrow>
   List.map_filter (\<lambda>r. map_option (\<lambda>d. (h d, r)) (g r)) xs = map (\<lambda>(d, r). (h d, r)) (zip ds xs)"
proof (induction xs arbitrary: ds)
  case Nil
  then show ?case by (simp add: List.map_filter_simps)
next
  case (Cons x xs)
  then obtain d ds' where "ds = d # ds'" by (cases ds) auto
  with Cons show ?case by (simp add: List.map_filter_simps)
qed

lemma toordinal_jan_5: "year now = 2025 \<Longrightarrow> month now = 1 \<Longrightarrow> day now = 5 \<Longrightarrow> toordinal now = 739256"
  by (simp add: toordinal_def days_before_year_def days_before_month_def upto.simps)

lemma roster_offsets_jan_5:
  "map (\<lambda>(m, dd). toordinal (at_midnight (if m = 12 then 2024 else 2025) m dd) - 739256)
      [(1, 3), (1, 10), (1, 17), (1, 24), (1, 31), (2, 7), (2, 14), (2, 21), (2, 28),
       (3, 7), (3, 14), (3, 21), (3, 28), (4, 4), (4, 11), (4, 18), (4, 25),
       (5, 2), (5, 9), (5, 16), (5, 23), (5, 30), (6, 6), (6, 13), (6, 20), (6, 27),
       (7, 4), (7, 11), (7, 18), (7, 25), (8, 1), (8, 8), (8, 15), (8, 22), (8, 29),
       (9, 5), (9, 12), (9, 19), (9, 26), (10, 3), (10, 10), (10, 17), (10, 24), (10, 31),
       (11, 7), (11, 14), (11, 21), (11, 28), (12, 5), (12, 12), (12, 19), (12, 26)]
   = [-2, 5, 12, 19, 26, 33, 40, 47, 54, 61, 68, 75, 82, 89, 96, 103, 110, 117, 124, 131, 138,
      145, 152, 159, 166, 173, 180, 187, 194, 201, 208, 215, 222, 229, 236, 243, 250, 257, 264,
      271, 278, 285, 292, 299, 306, 313, 320, 327, -31, -24, -17, -10]"
  by (simp add: toordinal_def days_before_year_def days_before_month_def days_in_month_def
      is_leap_def at_midnight_def upto.simps)


lemma future_rows_jan_5:
  assumes "year now = 2025" and "month now = 1" and "day now = 5"
  shows "future_rows now (fixed_clock now) 0 CLEANING_DATA =
     filter (\<lambda>(delta, r). - 2 \<le> delta \<and> delta \<le> 30)
       (map (\<lambda>(k, r). (k + (- time_of_day now) div 86400000000, r))
          (zip [-2, 5, 12, 19, 26, 33, 40, 47, 54, 61, 68, 75, 82, 89, 96, 103, 110, 117, 124, 131, 138,
      145, 152, 159, 166, 173, 180, 187, 194, 201, 208, 215, 222, 229, 236, 243, 250, 257, 264,
      271, 278, 285, 292, 299, 306, 313, 320, 327, -31, -24, -17, -10] CLEANING_DATA))"
proof -
  let ?D = "\<lambda>(m, dd). at_midnight (if m = 12 then 2024 else 2025) m (dd::int)"
  let ?pairs = "[(1, 3), (1, 10), (1, 17), (1, 24), (1, 31), (2, 7), (2, 14), (2, 21), (2, 28),
       (3, 7), (3, 14), (3, 21), (3, 28), (4, 4), (4, 11), (4, 18), (4, 25),
       (5, 2), (5, 9), (5, 16), (5, 23), (5, 30), (6, 6), (6, 13), (6, 20), (6, 27),
       (7, 4), (7, 11), (7, 18), (7, 25), (8, 1), (8, 8), (8, 15), (8, 22), (8, 29),
       (9, 5), (9, 12), (9, 19), (9, 26), (10, 3), (10, 10), (10, 17), (10, 24), (10, 31),
       (11, 7), (11, 14), (11, 21), (11, 28), (12, 5), (12, 12), (12, 19), (12, 26)] :: (int \<times> int) list"
  let ?o = "(- time_of_day now) div 86400000000"
  have parse: "map (\<lambda>r. parse_schedule_date now now (date_range r)) CLEANING_DATA
                 = map Some (map ?D ?pairs)"
    using parse_roster_jan_2025 [OF assms(1,2)] by (simp add: split_def)
  have delta: "timedelta_days (?D p) now = (toordinal (?D p) - 739256) + ?o" for p
    using toordinal_jan_5 [OF assms] by (cases p) (simp add: timedelta_from_midnight)
  have "List.map_filter
          (\<lambda>r. map_option (\<lambda>d. (timedelta_days d now, r))
                 (parse_schedule_date now now (date_range r))) CLEANING_DATA
      = map (\<lambda>(d, r). (timedelta_days d now, r)) (zip (map ?D ?pairs) CLEANING_DATA)"
    by (rule map_filter_all_some [OF parse])
  also have "\<dots> = map (\<lambda>(p, r). (timedelta_days (?D p) now, r)) (zip ?pairs CLEANING_DATA)"
    by (simp only: zip_map1 map_map comp_def split_def fst_conv snd_conv)
  also have "\<dots> = map (\<lambda>(p, r). ((toordinal (?D p) - 739256) + ?o, r)) (zip ?pairs CLEANING_DATA)"
    by (simp only: delta)
  also have "\<dots> = map (\<lambda>(k, r). (k + ?o, r))
                      (zip (map (\<lambda>p. toordinal (?D p) - 739256) ?pairs) CLEANING_DATA)"
    by (simp only: zip_map1 map_map comp_def split_def fst_conv snd_conv)
  also have "map (\<lambda>p. toordinal (?D p) - 739256) ?pairs = [-2, 5, 12, 19, 26, 33, 40, 47, 54, 61, 68, 75, 82, 89, 96, 103, 110, 117, 124, 131, 138,
      145, 152, 159, 166, 173, 180, 187, 194, 201, 208, 215, 222, 229, 236, 243, 250, 257, 264,
      271, 278, 285, 292, 299, 306, 313, 320, 327, -31, -24, -17, -10]"
    using roster_offsets_jan_5 by (simp only: split_def)
  finally show ?thesis
    by (simp only: future_rows_fixed)
qed

lemma schedule_jan_5_midnight:
  assumes "year now = 2025" and "month now = 1" and "day now = 5" and "time_of_day now = 0"
  shows "tool_check_schedule now (fixed_clock now) = render_schedule midnight_rows"
  unfolding tool_check_schedule_def future_rows_jan_5 [OF assms(1-3)] assms(4)
  by (simp add: CLEANING_DATA_def midnight_rows_def)

lemma schedule_jan_5_daytime:
  assumes "year now = 2025" and "month now = 1" and "day now = 5"
    and "0 < time_of_day now" and "time_of_day now < 86400000000"
  shows "tool_check_schedule now (fixed_clock now) = render_schedule daytime_rows"
proof -
  have "(- time_of_day now) div 86400000000 = - 1"
    using assms(4,5) by (simp add: div_pos_neg_trivial)
  then show ?thesis
    unfolding tool_check_schedule_def future_rows_jan_5 [OF assms(1-3)]
    by (simp add: CLEANING_DATA_def daytime_rows_def)
qed

text \<open>
  C5, as the code has it. With the clock fixed at \<open>now\<close>, \<^verbatim>\<open>tool_check_schedule\<close> keeps
  exactly the rows whose day difference \<^verbatim>\<open>(d - now).days\<close> lies between -2 and 30, sorts
  them by that difference and renders the first three, so the result is a function of
  \<open>now\<close>. The day difference is the floor of the time between \<open>now\<close> and the
  midnight that starts the row's date. On January 5, 2025 at midnight the row
  \<^verbatim>\<open>Jan 03 - 04\<close> has difference -2 and is shown with the next two rows; at every later
  instant of that day its difference is -3, and the rows shown are those of January 10, 17
  and 24.
\<close>

theorem check_schedule_window:
  "tool_check_schedule now (fixed_clock now) =
     (let kept = filter (\<lambda>(delta, r). - 2 \<le> delta \<and> delta \<le> 30)
                   (List.map_filter
                      (\<lambda>r. map_option (\<lambda>d. (timedelta_days d now, r))
                             (parse_schedule_date now now (date_range r))) CLEANING_DATA)
      in if kept = [] then no_schedule
         else render_schedule (map snd (take 3 (sort_key fst kept))))
   \<and> sorted (map fst (sort_key fst (future_rows now (fixed_clock now) 0 CLEANING_DATA)))
   \<and> (year now = 2025 \<and> month now = 1 \<and> day now = 5 \<and> time_of_day now = 0 \<longrightarrow>
        tool_check_schedule now (fixed_clock now) = render_schedule midnight_rows)
   \<and> (year now = 2025 \<and> month now = 1 \<and> day now = 5 \<and> 0 < time_of_day now
          \<and> time_of_day now < 86400000000 \<longrightarrow>
        tool_check_schedule now (fixed_clock now) = render_schedule daytime_rows)"
proof (intro conjI)
  show "tool_check_schedule now (fixed_clock now) =
     (let kept = filter (\<lambda>(delta, r). - 2 \<le> delta \<and> delta \<le> 30)
                   (List.map_filter
                      (\<lambda>r. map_option (\<lambda>d. (timedelta_days d now, r))
                             (parse_schedule_date now now (date_range r))) CLEANING_DATA)
      in if kept = [] then no_schedule
         else render_schedule (map snd (take 3 (sort_key fst kept))))"
    by (simp only: tool_check_schedule_def future_rows_fixed)
  show "sorted (map fst (sort_key fst (future_rows now (fixed_clock now) 0 CLEANING_DATA)))"
    by (rule sorted_sort_key)
  show "year now = 2025 \<and> month now = 1 \<and> day now = 5 \<and> time_of_day now = 0 \<longrightarrow>
        tool_check_schedule now (fixed_clock now) = render_schedule midnight_rows"
    using schedule_jan_5_midnight by blast
  show "year now = 2025 \<and> month now = 1 \<and> day now = 5 \<and> 0 < time_of_day now
          \<and> time_of_day now < 86400000000 \<longrightarrow>
        tool_check_schedule now (fixed_clock now) = render_schedule daytime_rows"
    using schedule_jan_5_daytime by blast
qed

theorem check_schedule_window_witness:
  "tool_check_schedule (at_midnight 2025 1 5) (fixed_clock (at_midnight 2025 1 5))
     = render_schedule midnight_rows
   \<and> tool_check_schedule (at_time 2025 1 5 9 30) (fixed_clock (at_time 2025 1 5 9 30))
     = render_schedule daytime_rows
   \<and> time_of_day (at_time 2025 1 5 9 30) = 34200000000"
proof -
  have a: "tool_check_schedule (at_midnight 2025 1 5) (fixed_clock (at_midnight 2025 1 5))
             = render_schedule midnight_rows"
    by (rule check_schedule_window [of "at_midnight 2025 1 5", THEN conjunct2, THEN conjunct2,
          THEN conjunct1, rule_format])
       (simp add: at_midnight_def time_of_day_def)
  have b: "tool_check_schedule (at_time 2025 1 5 9 30) (fixed_clock (at_time 2025 1 5 9 30))
             = render_schedule daytime_rows"
    by (rule check_schedule_window [of "at_time 2025 1 5 9 30", THEN conjunct2, THEN conjunct2,
          THEN conjunct2, rule_format])
       (simp add: at_time_def time_of_day_def)
  have c: "time_of_day (at_time 2025 1 5 9 30) = 34200000000"
    by (simp add: at_time_def time_of_day_def)
  from a b c show ?thesis by simp
qed

text \<open>
  The claim C5 as stated fails on January 5, 2025 at noon: the rows shown are those of
  January 10, 17 and 24, and the text does not mention \<^verbatim>\<open>Jan 03\<close>.
\<close>

theorem check_schedule_jan_5_noon_counterexample:
  "tool_check_schedule (at_time 2025 1 5 12 0) (fixed_clock (at_time 2025 1 5 12 0))
     = render_schedule daytime_rows
   \<and> \<not> contains ''Jan 03'' (render_schedule daytime_rows)
   \<and> timedelta_days (at_midnight 2025 1 3) (at_time 2025 1 5 12 0) = - 3"
proof -
  have a: "tool_check_schedule (at_time 2025 1 5 12 0) (fixed_clock (at_time 2025 1 5 12 0))
             = render_schedule daytime_rows"
    by (rule schedule_jan_5_daytime) (simp_all add: at_time_def time_of_day_def)
  have b: "\<not> contains ''Jan 03'' (render_schedule daytime_rows)"
    by (simp add: render_schedule_def render_row_def daytime_rows_def schedule_header_def
        date_range_def kitchen_def wc_floor_def user_name_def USER_MAP_def)
  have c: "timedelta_days (at_midnight 2025 1 3) (at_time 2025 1 5 12 0) = - 3"
    by (simp add: timedelta_days_def microseconds_def toordinal_def days_before_year_def
        days_before_month_def days_in_month_def at_midnight_def at_time_def upto.simps)
  from a b c show ?thesis by simp
qed

section \<open>Properties of the search tool\<close>

lemma search_loop_skips_empty:
  "search_loop raw seen results =
     search_loop (filter (\<lambda>r. result_body r \<noteq> []) raw) seen results"
  by (induction raw arbitrary: seen results) (simp_all add: Let_def)

lemma search_loop_entries:
  "e \<in> set (search_loop raw seen results) \<Longrightarrow>
   e \<in> set results \<or>
   (\<exists>r \<in> set raw. result_body r \<noteq> [] \<and> e = format_result (result_title r) (result_body r))"
proof (induction raw arbitrary: seen results)
  case Nil
  then show ?case by simp
next
  case (Cons r raw)
  show ?case
  proof (cases "result_body r = []")
    case True
    with Cons.prems have "e \<in> set (search_loop raw seen results)" by simp
    from Cons.IH [OF this] show ?thesis by auto
  next
    case False
    let ?sig = "(take 20 (result_title r), take 20 (result_body r))"
    show ?thesis
    proof (cases "?sig \<in> seen")
      case True
      with False Cons.prems have "e \<in> set (search_loop raw seen results)"
        by (simp add: Let_def)
      from Cons.IH [OF this] show ?thesis by auto
    next
      case new: False
      with False Cons.prems
      have "e \<in> set (search_loop raw (insert ?sig seen)
                     (results @ [format_result (result_title r) (result_body r)]))"
        by (simp add: Let_def)
      from Cons.IH [OF this] False show ?thesis by auto
    qed
  qed
qed

lemma split_lines_no_newline:
  "CHR 0x0A \<notin> set x \<Longrightarrow> split_lines w (x @ s) = split_lines (w @ x) s"
  by (induction x arbitrary: w) auto

lemma lines_join:
  "xs \<noteq> [] \<Longrightarrow> \<forall>x \<in> set xs. CHR 0x0A \<notin> set x \<Longrightarrow> lines (join [CHR 0x0A] xs) = xs"
proof (induction "[CHR 0x0A]" xs rule: join.induct)
  case 1
  then show ?case by simp
next
  case (2 x)
  then show ?case
    using split_lines_no_newline [of x "[]" "[]"] by (simp add: lines_def)
next
  case (3 x y ys)
  then have "lines (join [CHR 0x0A] (y # ys)) = y # ys" by simp
  moreover have "split_lines [] (x @ CHR 0x0A # join [CHR 0x0A] (y # ys))
                   = x # split_lines [] (join [CHR 0x0A] (y # ys))"
    using 3(3) split_lines_no_newline [of x "[]"] by simp
  ultimately show ?case by (simp add: lines_def)
qed

lemma format_result_no_newline:
  "CHR 0x0A \<notin> set t \<Longrightarrow> CHR 0x0A \<notin> set b \<Longrightarrow> CHR 0x0A \<notin> set (format_result t b)"
  by (simp add: format_result_def)

text \<open>
  C10, as the code has it. A result whose body and snippet are both empty is dropped
  before the signature is looked at, whatever its title. A successful output is at most
  three entries joined by line feeds, each of the form \<^verbatim>\<open>- title: body\<close> with the title
  and the body of one raw result whose body is not empty. When no title and no body
  contains a line feed, these entries are exactly the lines of the output.
\<close>

theorem search_entries:
  "search_loop (news @ texts) {} []
     = search_loop (filter (\<lambda>r. result_body r \<noteq> []) (news @ texts)) {} []
   \<and> length (take 3 (search_loop (news @ texts) {} [])) \<le> 3
   \<and> (\<forall>e \<in> set (take 3 (search_loop (news @ texts) {} [])).
         \<exists>r \<in> set (news @ texts). result_body r \<noteq> []
            \<and> e = ''- '' @ result_title r @ '': '' @ result_body r)
   \<and> (search_loop (news @ texts) {} [] \<noteq> [] \<longrightarrow>
         tool_search (Hits news texts)
           = join [CHR 0x0A] (take 3 (search_loop (news @ texts) {} [])))
   \<and> (search_loop (news @ texts) {} [] \<noteq> []
        \<and> (\<forall>r \<in> set (news @ texts).
              CHR 0x0A \<notin> set (result_title r) \<and> CHR 0x0A \<notin> set (result_body r)) \<longrightarrow>
         lines (tool_search (Hits news texts)) = take 3 (search_loop (news @ texts) {} []))"
proof -
  let ?raw = "news @ texts"
  let ?results = "search_loop ?raw {} []"
  have entries: "\<exists>r \<in> set ?raw. result_body r \<noteq> []
            \<and> e = ''- '' @ result_title r @ '': '' @ result_body r"
    if "e \<in> set (take 3 ?results)" for e
  proof -
    from that have "e \<in> set ?results" by (rule in_set_takeD)
    from search_loop_entries [OF this] show ?thesis by (simp add: format_result_def)
  qed
  have out: "tool_search (Hits news texts) = join [CHR 0x0A] (take 3 ?results)"
    if "?results \<noteq> []"
    using that by (simp add: search_text_def)
  have lines: "lines (tool_search (Hits news texts)) = take 3 ?results"
    if ne: "?results \<noteq> []"
      and nl: "\<forall>r \<in> set ?raw. CHR 0x0A \<notin> set (result_title r) \<and> CHR 0x0A \<notin> set (result_body r)"
  proof -
    have "CHR 0x0A \<notin> set e" if "e \<in> set (take 3 ?results)" for e
    proof -
      from entries [OF that] obtain r where "r \<in> set ?raw"
        and "e = format_result (result_title r) (result_body r)"
        by (auto simp: format_result_def)
      with nl show ?thesis using format_result_no_newline by blast
    qed
    moreover from ne have "take 3 ?results \<noteq> []" by simp
    ultimately have "lines (join [CHR 0x0A] (take 3 ?results)) = take 3 ?results"
      using lines_join by blast
    with out [OF ne] show ?thesis by simp
  qed
  show ?thesis
  proof (intro conjI)
    show "?results = search_loop (filter (\<lambda>r. result_body r \<noteq> []) ?raw) {} []"
      by (rule search_loop_skips_empty)
    show "length (take 3 ?results) \<le> 3"
      by simp
    show "\<forall>e \<in> set (take 3 ?results).
         \<exists>r \<in> set ?raw. result_body r \<noteq> []
            \<and> e = ''- '' @ result_title r @ '': '' @ result_body r"
      using entries by blast
    show "?results \<noteq> [] \<longrightarrow>
         tool_search (Hits news texts) = join [CHR 0x0A] (take 3 ?results)"
      using out by blast
    show "?results \<noteq> []
        \<and> (\<forall>r \<in> set ?raw.
              CHR 0x0A \<notin> set (result_title r) \<and> CHR 0x0A \<notin> set (result_body r)) \<longrightarrow>
         lines (tool_search (Hits news texts)) = take 3 ?results"
      using lines by blast
  qed
qed


theorem search_entries_witness:
  "search_loop ([empty_hit, pretzel_hit] @ [pretzel_hit]) {} [] = [''- Brezel: salty'']
   \<and> tool_search (Hits [empty_hit, pretzel_hit] [pretzel_hit]) = ''- Brezel: salty''
   \<and> lines (tool_search (Hits [empty_hit, pretzel_hit] [pretzel_hit])) = [''- Brezel: salty'']"
proof -
  have r: "search_loop ([empty_hit, pretzel_hit] @ [pretzel_hit]) {} [] = [''- Brezel: salty'']"
    by (simp add: empty_hit_def pretzel_hit_def result_title_def result_body_def
        format_result_def Let_def)
  have n: "\<forall>r \<in> set ([empty_hit, pretzel_hit] @ [pretzel_hit]).
             CHR 0x0A \<notin> set (result_title r) \<and> CHR 0x0A \<notin> set (result_body r)"
    by (simp add: empty_hit_def pretzel_hit_def result_title_def result_body_def)
  note T = search_entries [of "[empty_hit, pretzel_hit]" "[pretzel_hit]"]
  have ne: "search_loop ([empty_hit, pretzel_hit] @ [pretzel_hit]) {} [] \<noteq> []"
    by (simp only: r) simp
  have "tool_search (Hits [empty_hit, pretzel_hit] [pretzel_hit])
          = join [CHR 0x0A] (take 3 (search_loop ([empty_hit, pretzel_hit] @ [pretzel_hit]) {} []))"
    by (rule T [THEN conjunct2, THEN conjunct2, THEN conjunct2, THEN conjunct1, rule_format,
          OF ne])
  then have a: "tool_search (Hits [empty_hit, pretzel_hit] [pretzel_hit]) = ''- Brezel: salty''"
    by (simp only: r) simp
  have "lines (tool_search (Hits [empty_hit, pretzel_hit] [pretzel_hit]))
          = take 3 (search_loop ([empty_hit, pretzel_hit] @ [pretzel_hit]) {} [])"
    by (rule T [THEN conjunct2, THEN conjunct2, THEN conjunct2, THEN conjunct2, rule_format])
       (use ne n in blast)
  then have b: "lines (tool_search (Hits [empty_hit, pretzel_hit] [pretzel_hit]))
                  = [''- Brezel: salty'']"
    by (simp only: r) simp
  from r a b show ?thesis by (intro conjI)
qed

text \<open>
  The claim C10 as stated fails when a body has a line feed: three results give an output of
  six lines, and every second line is the rest of a body, without a colon.
\<close>

theorem search_lines_counterexample:
  "lines (tool_search (Hits [two_line_hit ''x'', two_line_hit ''y''] [two_line_hit ''z'']))
     = [''- x: a'', ''b'', ''- y: a'', ''b'', ''- z: a'', ''b'']"
  by (simp add: two_line_hit_def search_text_def result_title_def result_body_def
      format_result_def lines_def Let_def)

section \<open>Properties of the message handler\<close>

lemma safe_edit_trace:
  "model_trace (snd (safe_edit_message E cid mid txt w)) = model_trace w"
  by (simp add: safe_edit_message_def Let_def split: transport_reply.splits)

lemma remind_trace: "model_trace (snd (remind E cid arg w)) = model_trace w"
  by (simp add: remind_def Let_def split: option.splits sum.splits)

lemma dispatch_trace:
  "model_trace (snd (dispatch E cid mid k tool arg w)) = model_trace w"
proof -
  have a: "model_trace w' = model_trace w"
    if "safe_edit_message E cid mid s w = (r, w')" for s r w'
    using safe_edit_trace [of E cid mid s w] that by simp
  have b: "model_trace w' = model_trace w" if "remind E cid arg w = (obs, w')" for obs w'
    using remind_trace [of E cid arg w] that by simp
  show ?thesis
    by (auto simp: dispatch_def a b split: prod.splits option.splits)
qed

lemma agent_loop_calls:
  "\<exists>rs. model_trace (snd (agent_loop E cid mid n k fr ms w)) = model_trace w @ rs
        \<and> length rs \<le> n"
proof (induction n arbitrary: k ms w)
  case 0
  then show ?case by simp
next
  case (Suc n)
  let ?w1 = "w\<lparr>model_trace := model_trace w @ [backend E k ms]\<rparr>"
  show ?case
  proof (cases "backend E k ms")
    case (Inl e)
    then show ?thesis by simp
  next
    case (Inr t)
    show ?thesis
    proof (cases "action_search (strip t)")
      case None
      with Inr show ?thesis by simp
    next
      case (Some g)
      obtain g1 g2 where g: "g = (g1, g2)" by (cases g)
      obtain r w2 where d: "dispatch E cid mid k (upper g1) (strip g2) ?w1 = (r, w2)"
        by (cases "dispatch E cid mid k (upper g1) (strip g2) ?w1")
      from dispatch_trace [of E cid mid k "upper g1" "strip g2" ?w1] d
      have t2: "model_trace w2 = model_trace w @ [Inr t]" using Inr by simp
      show ?thesis
      proof (cases r)
        case (Inl e)
        with Inr Some g d t2 show ?thesis by (simp add: Let_def)
      next
        case (Inr obs)
        from Suc.IH [of "Suc k" _ w2] obtain rs where
          "model_trace (snd (agent_loop E cid mid n (Suc k) fr
              ((ms @ [\<lparr>role = ''assistant'', content = strip t\<rparr>])
                 @ [\<lparr>role = ''user'', content = ''OBSERVATION: '' @ obs\<rparr>]) w2))
             = model_trace w2 @ rs" and "length rs \<le> n"
          by blast
        with \<open>backend E k ms = Inr t\<close> Some g d t2 Inr show ?thesis
          by (simp add: Let_def)
      qed
    qed
  qed
qed


lemma agent_loop_first_call:
  "\<exists>rs. model_trace (snd (agent_loop E cid mid (Suc n) k fr ms w))
          = model_trace w @ backend E k ms # rs \<and> length rs \<le> n"
proof -
  let ?w1 = "w\<lparr>model_trace := model_trace w @ [backend E k ms]\<rparr>"
  show ?thesis
  proof (cases "backend E k ms")
    case (Inl e)
    then show ?thesis by simp
  next
    case (Inr t)
    show ?thesis
    proof (cases "action_search (strip t)")
      case None
      with Inr show ?thesis by simp
    next
      case (Some g)
      obtain g1 g2 where g: "g = (g1, g2)" by (cases g)
      obtain r w2 where d: "dispatch E cid mid k (upper g1) (strip g2) ?w1 = (r, w2)"
        by (cases "dispatch E cid mid k (upper g1) (strip g2) ?w1")
      from dispatch_trace [of E cid mid k "upper g1" "strip g2" ?w1] d
      have t2: "model_trace w2 = model_trace w @ [Inr t]" using Inr by simp
      show ?thesis
      proof (cases r)
        case (Inl e)
        with Inr Some g d t2 show ?thesis by (simp add: Let_def)
      next
        case (Inr obs)
        from agent_loop_calls [of E cid mid n "Suc k" fr _ w2] obtain rs where
          "model_trace (snd (agent_loop E cid mid n (Suc k) fr
              ((ms @ [\<lparr>role = ''assistant'', content = strip t\<rparr>])
                 @ [\<lparr>role = ''user'', content = ''OBSERVATION: '' @ obs\<rparr>]) w2))
             = model_trace w2 @ rs" and "length rs \<le> n"
          by blast
        with \<open>backend E k ms = Inr t\<close> Some g d t2 Inr show ?thesis
          by (simp add: Let_def)
      qed
    qed
  qed
qed

lemma safe_edit_no_raise:
  assumes "\<forall>k msg. transport E k \<noteq> TransportError msg"
  shows "fst (safe_edit_message E cid mid s w) = None"
  using assms by (simp add: safe_edit_message_def Let_def split: transport_reply.splits)

lemma dispatch_no_raise:
  assumes "\<forall>k msg. transport E k \<noteq> TransportError msg"
  shows "\<exists>obs. fst (dispatch E cid mid k tool arg w) = Inr obs"
proof -
  have e: "\<exists>w'. safe_edit_message E cid mid s w = (None, w')" for s
    using safe_edit_no_raise [OF assms, of cid mid s w]
    by (cases "safe_edit_message E cid mid s w") simp
  obtain w1 where 1: "safe_edit_message E cid mid (status_search arg) w = (None, w1)"
    using e by blast
  obtain w2 where 2: "safe_edit_message E cid mid status_roster w = (None, w2)"
    using e by blast
  show ?thesis
    by (simp add: dispatch_def 1 2 split: prod.splits)
qed

lemma agent_loop_exhausts:
  assumes A: "\<forall>k ms. \<exists>t. backend E k ms = Inr t \<and> action_search (strip t) \<noteq> None"
    and T: "\<forall>k msg. transport E k \<noteq> TransportError msg"
  shows "\<exists>w' rs. agent_loop E cid mid n k fr ms w = (Inr fr, w')
           \<and> model_trace w' = model_trace w @ rs \<and> length rs = n"
proof (induction n arbitrary: k ms w)
  case 0
  then show ?case by simp
next
  case (Suc n)
  let ?w1 = "w\<lparr>model_trace := model_trace w @ [backend E k ms]\<rparr>"
  from A obtain t g where t: "backend E k ms = Inr t" and s: "action_search (strip t) = Some g"
    by fastforce
  obtain g1 g2 where g: "g = (g1, g2)" by (cases g)
  obtain r w2 where d: "dispatch E cid mid k (upper g1) (strip g2) ?w1 = (r, w2)"
    by (cases "dispatch E cid mid k (upper g1) (strip g2) ?w1")
  from dispatch_no_raise [OF T, of cid mid k "upper g1" "strip g2" ?w1] d
  obtain obs where r: "r = Inr obs" by auto
  from dispatch_trace [of E cid mid k "upper g1" "strip g2" ?w1] d
  have t2: "model_trace w2 = model_trace w @ [Inr t]" using t by simp
  let ?ms = "(ms @ [\<lparr>role = ''assistant'', content = strip t\<rparr>])
                 @ [\<lparr>role = ''user'', content = ''OBSERVATION: '' @ obs\<rparr>]"
  from Suc.IH [of "Suc k" ?ms w2] obtain w' rs where
    "agent_loop E cid mid n (Suc k) fr ?ms w2 = (Inr fr, w')"
    and "model_trace w' = model_trace w2 @ rs" and "length rs = n"
    by blast
  with t s g d r t2 show ?case by (simp add: Let_def)
qed

lemma agent_loop_all_actions:
  assumes "agent_loop E cid mid n k fr ms w = (r, w')"
    and "model_trace w' = model_trace w @ map Inr ts"
    and "length ts = n"
    and "\<forall>t \<in> set ts. action_search (strip t) \<noteq> None"
  shows "r = Inr fr \<or> (\<exists>e. r = Inl e)"
  using assms
proof (induction n arbitrary: k ms w ts)
  case 0
  then show ?case by simp
next
  case (Suc n)
  let ?w1 = "w\<lparr>model_trace := model_trace w @ [backend E k ms]\<rparr>"
  from Suc.prems(3) obtain t ts' where ts: "ts = t # ts'" and len: "length ts' = n"
    by (cases ts) auto
  from agent_loop_first_call [of E cid mid n k fr ms w] Suc.prems(1,2) ts
  have b: "backend E k ms = Inr t" by auto
  from Suc.prems(4) ts obtain g where s: "action_search (strip t) = Some g" by auto
  obtain g1 g2 where g: "g = (g1, g2)" by (cases g)
  obtain x w2 where d: "dispatch E cid mid k (upper g1) (strip g2) ?w1 = (x, w2)"
    by (cases "dispatch E cid mid k (upper g1) (strip g2) ?w1")
  from dispatch_trace [of E cid mid k "upper g1" "strip g2" ?w1] d
  have t2: "model_trace w2 = model_trace w @ [Inr t]" using b by simp
  show ?case
  proof (cases x)
    case (Inl e)
    with Suc.prems(1) b s g d show ?thesis by (auto simp: Let_def)
  next
    case (Inr obs)
    let ?ms = "(ms @ [\<lparr>role = ''assistant'', content = strip t\<rparr>])
                 @ [\<lparr>role = ''user'', content = ''OBSERVATION: '' @ obs\<rparr>]"
    from Suc.prems(1) b s g d Inr
    have run: "agent_loop E cid mid n (Suc k) fr ?ms w2 = (r, w')" by (simp add: Let_def)
    from Suc.prems(2) ts t2 have tr: "model_trace w' = model_trace w2 @ map Inr ts'" by simp
    from Suc.prems(4) ts have "\<forall>t \<in> set ts'. action_search (strip t) \<noteq> None" by simp
    from Suc.IH [OF run tr len this] show ?thesis .
  qed
qed

lemma final_reply_fixed:
  "final_reply_of (Inr ''cooked.'') = ''cooked.''" "final_reply_of (Inl e) = brain_died"
  by (simp_all add: final_reply_of_def brain_died_def)

lemmas text_eval_simps =
  strip_def is_space_def match_here_def prefix_ignorecase_def upper_def ascii_upper_def
  tool_names_def

lemma action_calc: "action_search (strip ''ACTION: CALC 1+1'') = Some (''CALC'', ''1+1'')"
  by (simp add: text_eval_simps)


lemma action_search_bier:
  "action_search (strip ''ACTION: SEARCH bier'') = Some (''SEARCH'', ''bier'')"
  by (simp add: text_eval_simps)

lemma action_hallo: "action_search (strip ''hallo'') = None"
  by (simp add: text_eval_simps)

lemma upper_names: "upper ''CALC'' = ''CALC''" "upper ''SEARCH'' = ''SEARCH''"
  by (simp_all add: upper_def ascii_upper_def)

lemma strip_plain: "strip ''1+1'' = ''1+1''" "strip ''bier'' = ''bier''" "strip ''hi'' = ''hi''"
  "strip ''hello'' = ''hello''" "strip ''hallo'' = ''hallo''"
  by (simp_all add: strip_def is_space_def)

lemma calc_one_plus_one: "tool_calc F ''1+1'' = ''2''"
  by (simp add: calc_eval_simps)


lemma calc_env_loop:
  "agent_loop calc_env cid mid MAX_STEPS 0 ''cooked.'' ms w =
     (Inr ''cooked.'',
      w\<lparr>model_trace := model_trace w @ replicate 5 (Inr ''ACTION: CALC 1+1'')\<rparr>)"
  by (simp add: MAX_STEPS_def eval_nat_numeral calc_env_def example_env_def action_calc
      upper_names strip_plain dispatch_def calc_one_plus_one)

lemma calc_env_wire: "transport calc_env k = Delivered 7"
  by (simp add: calc_env_def example_env_def)

lemma calc_env_run:
  "fst (handle_message calc_env (Some private_hi) empty_world) = None"
  "outbox (snd (handle_message calc_env (Some private_hi) empty_world))
     = [Sent 42 status_moment, Edited 42 7 ''cooked.'']"
  "model_trace (snd (handle_message calc_env (Some private_hi) empty_world))
     = replicate 5 (Inr ''ACTION: CALC 1+1'')"
  by (simp_all add: handle_message_def private_hi_def is_direct_def strip_plain
      send_message_def calc_env_loop calc_env_wire final_reply_fixed deliver_def
      safe_edit_message_def empty_world_def Let_def log_error_def)


lemma deliver_delivered:
  assumes "transport E (transport_calls w) = Delivered i"
  shows "fst (deliver E cid mid reply w) = None"
    and "outbox (snd (deliver E cid mid reply w)) = outbox w @ [Edited cid mid reply]"
  using assms by (simp_all add: deliver_def safe_edit_message_def Let_def)

lemma handle_message_exhausted:
  assumes A: "\<forall>k ms. \<exists>t. backend E k ms = Inr t \<and> action_search (strip t) \<noteq> None"
    and D: "\<forall>k. \<exists>i. transport E k = Delivered i"
    and m: "message_text m = Some raw" "raw \<noteq> []" "chat m = PRIVATE"
  shows "fst (handle_message E (Some m) w) = None
    \<and> (\<exists>i. last (outbox (snd (handle_message E (Some m) w)))
              = Edited (chat_ident m) i ''cooked.'')"
proof -
  let ?cid = "chat_ident m"
  let ?w1 = "w\<lparr>ANNOUNCE_CHAT_ID := Some ?cid,
               session_memory := update_memory (session_memory w) ?cid ''user'' (strip raw)\<rparr>"
  from D have T: "\<forall>k msg. transport E k \<noteq> TransportError msg"
    by (metis transport_reply.distinct(3))
  from D obtain i0 where i0: "transport E (transport_calls w) = Delivered i0" by blast
  let ?w2 = "?w1\<lparr>transport_calls := Suc (transport_calls w),
                  outbox := outbox w @ [Sent ?cid status_moment]\<rparr>"
  have send: "send_message E ?cid status_moment ?w1 = (Inr i0, ?w2)"
    using i0 by (simp add: send_message_def)
  let ?ms = "\<lparr>role = ''system'', content = SYSTEM_PROMPT\<rparr> # get_memory (session_memory ?w2) ?cid"
  from agent_loop_exhausts [OF A T, of ?cid i0 MAX_STEPS 0 "''cooked.''" ?ms ?w2]
  obtain w3 where loop: "agent_loop E ?cid i0 MAX_STEPS 0 ''cooked.'' ?ms ?w2 = (Inr ''cooked.'', w3)"
    by blast
  from D obtain i1 where i1: "transport E (transport_calls w3) = Delivered i1" by blast
  have run: "handle_message E (Some m) w = deliver E ?cid i0 ''cooked.'' w3"
    using m send loop
    by (simp add: handle_message_def is_direct_def Let_def final_reply_fixed log_error_def)
  show ?thesis
    unfolding run using deliver_delivered [OF i1, of ?cid i0 "''cooked.''"] by simp
qed

text \<open>
  C1, as the code has it. When the loop has made all five calls of the model and every
  reply contained an action directive, \<^verbatim>\<open>final_reply\<close> still holds its initial value: the
  loop ends with the fixed text \<^verbatim>\<open>cooked.\<close>, or with an exception when the last tool's
  status edit raises, and the reply is then \<^verbatim>\<open>cooked.\<close> or the fixed apology, never a
  text of the model. With a model that always sends a directive and a transport that
  always delivers, the last message delivered for a private text message is the status
  message edited to \<^verbatim>\<open>cooked.\<close>.
\<close>

theorem exhausted_loop_reply:
  "(\<forall>r w' ts. agent_loop E cid mid MAX_STEPS 0 ''cooked.'' ms w = (r, w')
        \<and> model_trace w' = model_trace w @ map Inr ts \<and> length ts = MAX_STEPS
        \<and> (\<forall>t \<in> set ts. action_search (strip t) \<noteq> None) \<longrightarrow>
      (r = Inr ''cooked.'' \<or> (\<exists>e. r = Inl e))
      \<and> (final_reply_of r = ''cooked.'' \<or> final_reply_of r = brain_died))
   \<and> ((\<forall>k ms. \<exists>t. backend E k ms = Inr t \<and> action_search (strip t) \<noteq> None)
        \<and> (\<forall>k. \<exists>i. transport E k = Delivered i)
        \<and> message_text m = Some raw \<and> raw \<noteq> [] \<and> chat m = PRIVATE \<longrightarrow>
      fst (handle_message E (Some m) w0) = None
      \<and> (\<exists>i. last (outbox (snd (handle_message E (Some m) w0)))
                = Edited (chat_ident m) i ''cooked.''))"
proof (intro conjI allI impI)
  fix r w' ts
  assume h: "agent_loop E cid mid MAX_STEPS 0 ''cooked.'' ms w = (r, w')
        \<and> model_trace w' = model_trace w @ map Inr ts \<and> length ts = MAX_STEPS
        \<and> (\<forall>t \<in> set ts. action_search (strip t) \<noteq> None)"
  then have r: "r = Inr ''cooked.'' \<or> (\<exists>e. r = Inl e)"
    using agent_loop_all_actions [of E cid mid MAX_STEPS 0 "''cooked.''" ms w r w' ts] by blast
  then show "r = Inr ''cooked.'' \<or> (\<exists>e. r = Inl e)" .
  from r show "final_reply_of r = ''cooked.'' \<or> final_reply_of r = brain_died"
    using final_reply_fixed by auto
next
  assume h: "(\<forall>k ms. \<exists>t. backend E k ms = Inr t \<and> action_search (strip t) \<noteq> None)
        \<and> (\<forall>k. \<exists>i. transport E k = Delivered i)
        \<and> message_text m = Some raw \<and> raw \<noteq> [] \<and> chat m = PRIVATE"
  then have "fst (handle_message E (Some m) w0) = None
      \<and> (\<exists>i. last (outbox (snd (handle_message E (Some m) w0)))
                = Edited (chat_ident m) i ''cooked.'')"
    using handle_message_exhausted [of E m raw w0] by blast
  then show "fst (handle_message E (Some m) w0) = None"
    and "\<exists>i. last (outbox (snd (handle_message E (Some m) w0)))
                = Edited (chat_ident m) i ''cooked.''"
    by blast+
qed

theorem exhausted_loop_reply_witness:
  "fst (handle_message calc_env (Some private_hi) empty_world) = None
   \<and> (\<exists>i. last (outbox (snd (handle_message calc_env (Some private_hi) empty_world)))
             = Edited 42 i ''cooked.'')
   \<and> final_reply_of (Inr ''cooked.'' :: py_error + string) = ''cooked.''"
proof -
  have A: "\<forall>k ms. \<exists>t. backend calc_env k ms = Inr t \<and> action_search (strip t) \<noteq> None"
    by (simp add: calc_env_def example_env_def action_calc)
  have D: "\<forall>k. \<exists>i. transport calc_env k = Delivered i"
    by (simp add: calc_env_wire)
  have m: "message_text private_hi = Some ''hi'' \<and> ''hi'' \<noteq> [] \<and> chat private_hi = PRIVATE"
    by (simp add: private_hi_def)
  have loop: "agent_loop calc_env 42 7 MAX_STEPS 0 ''cooked.'' [] empty_world
      = (Inr ''cooked.'',
         empty_world\<lparr>model_trace := model_trace empty_world
                          @ map Inr (replicate 5 ''ACTION: CALC 1+1'')\<rparr>)"
    by (simp add: calc_env_loop)
  note T = exhausted_loop_reply [of calc_env 42 7 "[]" empty_world private_hi "''hi''" empty_world]
  from T A D m
  have a: "fst (handle_message calc_env (Some private_hi) empty_world) = None
     \<and> (\<exists>i. last (outbox (snd (handle_message calc_env (Some private_hi) empty_world)))
             = Edited (chat_ident private_hi) i ''cooked.'')"
    by blast
  have ts: "length (replicate 5 ''ACTION: CALC 1+1'') = MAX_STEPS
      \<and> (\<forall>t \<in> set (replicate 5 ''ACTION: CALC 1+1''). action_search (strip t) \<noteq> None)"
    by (simp add: MAX_STEPS_def action_calc)
  from T [THEN conjunct1, rule_format, of "Inr ''cooked.''" _ "replicate 5 ''ACTION: CALC 1+1''"]
    loop ts
  have b: "final_reply_of (Inr ''cooked.'' :: py_error + string) = ''cooked.''
           \<or> final_reply_of (Inr ''cooked.'' :: py_error + string) = brain_died"
    by simp
  have "final_reply_of (Inr ''cooked.'' :: py_error + string) \<noteq> brain_died"
    by (simp add: final_reply_fixed brain_died_def)
  with a b show ?thesis by (simp add: private_hi_def)
qed

text \<open>
  The claim C1 as stated fails for a model that asks for the calculator in all five steps:
  the reply delivered is \<^verbatim>\<open>cooked.\<close>, while the last text of the model, after the
  substitution for a leaked directive, would be \<^verbatim>\<open>Done. Alles gut.\<close>
\<close>

theorem exhausted_loop_reply_counterexample:
  "model_trace (snd (handle_message calc_env (Some private_hi) empty_world))
     = replicate 5 (Inr ''ACTION: CALC 1+1'')
   \<and> action_search (strip ''ACTION: CALC 1+1'') = Some (''CALC'', ''1+1'')
   \<and> outbox (snd (handle_message calc_env (Some private_hi) empty_world))
     = [Sent 42 status_moment, Edited 42 7 ''cooked.'']
   \<and> final_reply_of (Inr ''ACTION: CALC 1+1'' :: py_error + string) = ''Done. Alles gut.''"
proof -
  have "final_reply_of (Inr ''ACTION: CALC 1+1'' :: py_error + string) = ''Done. Alles gut.''"
    by (simp add: final_reply_of_def)
  then show ?thesis
    by (simp add: calc_env_run action_calc)
qed

text \<open>
  C9, as the code has it. The loop calls the model at most five times, whatever the model
  and the transport do, and then returns. With a model that always sends a directive it
  makes exactly five calls and leaves \<^verbatim>\<open>final_reply\<close> at \<^verbatim>\<open>cooked.\<close>, provided no status
  edit raises an error other than \<^verbatim>\<open>BadRequest\<close>; such an error ends the loop at once.
\<close>

theorem agent_loop_step_budget:
  "(\<exists>rs. model_trace (snd (agent_loop E cid mid MAX_STEPS 0 ''cooked.'' ms w))
           = model_trace w @ rs \<and> length rs \<le> MAX_STEPS)
   \<and> ((\<forall>k ms. \<exists>t. backend E k ms = Inr t \<and> action_search (strip t) \<noteq> None)
        \<and> (\<forall>k msg. transport E k \<noteq> TransportError msg) \<longrightarrow>
       (\<exists>w' rs. agent_loop E cid mid MAX_STEPS 0 ''cooked.'' ms w = (Inr ''cooked.'', w')
          \<and> model_trace w' = model_trace w @ rs \<and> length rs = MAX_STEPS
          \<and> final_reply_of (Inr ''cooked.'' :: py_error + string) = ''cooked.''))"
proof (intro conjI impI)
  show "\<exists>rs. model_trace (snd (agent_loop E cid mid MAX_STEPS 0 ''cooked.'' ms w))
           = model_trace w @ rs \<and> length rs \<le> MAX_STEPS"
    by (rule agent_loop_calls)
next
  assume "(\<forall>k ms. \<exists>t. backend E k ms = Inr t \<and> action_search (strip t) \<noteq> None)
        \<and> (\<forall>k msg. transport E k \<noteq> TransportError msg)"
  then have A: "\<forall>k ms. \<exists>t. backend E k ms = Inr t \<and> action_search (strip t) \<noteq> None"
    and T: "\<forall>k msg. transport E k \<noteq> TransportError msg"
    by blast+
  from agent_loop_exhausts [OF A T, of cid mid MAX_STEPS 0 "''cooked.''" ms w]
  show "\<exists>w' rs. agent_loop E cid mid MAX_STEPS 0 ''cooked.'' ms w = (Inr ''cooked.'', w')
          \<and> model_trace w' = model_trace w @ rs \<and> length rs = MAX_STEPS
          \<and> final_reply_of (Inr ''cooked.'' :: py_error + string) = ''cooked.''"
    using final_reply_fixed(1) by auto
qed

theorem agent_loop_step_budget_witness:
  "\<exists>w' rs. agent_loop calc_env 42 7 MAX_STEPS 0 ''cooked.'' [] empty_world = (Inr ''cooked.'', w')
      \<and> model_trace w' = model_trace empty_world @ rs \<and> length rs = 5"
proof -
  have A: "\<forall>k ms. \<exists>t. backend calc_env k ms = Inr t \<and> action_search (strip t) \<noteq> None"
    by (simp add: calc_env_def example_env_def action_calc)
  have T: "\<forall>k msg. transport calc_env k \<noteq> TransportError msg"
    by (simp add: calc_env_wire)
  from agent_loop_step_budget [of calc_env 42 7 "[]" empty_world, THEN conjunct2] A T
  obtain w' rs where
    "agent_loop calc_env 42 7 MAX_STEPS 0 ''cooked.'' [] empty_world = (Inr ''cooked.'', w')"
    and "model_trace w' = model_trace empty_world @ rs" and "length rs = MAX_STEPS"
    by blast
  then show ?thesis
    by (auto simp: MAX_STEPS_def)
qed

lemma timeout_env_wire:
  "transport timeout_env 0 = Delivered 7"
  "0 < k \<Longrightarrow> transport timeout_env k = TransportError ''Timed out''"
  by (simp_all add: timeout_env_def example_env_def)

lemma timeout_env_loop:
  "0 < transport_calls w \<Longrightarrow>
   agent_loop timeout_env cid mid MAX_STEPS 0 ''cooked.'' ms w =
     (Inl (OtherError ''Timed out''),
      w\<lparr>model_trace := model_trace w @ [Inr ''ACTION: SEARCH bier''],
         transport_calls := Suc (transport_calls w)\<rparr>)"
  by (simp add: MAX_STEPS_def eval_nat_numeral action_search_bier upper_names strip_plain
      dispatch_def safe_edit_message_def timeout_env_wire Let_def,
      simp add: timeout_env_def example_env_def action_search_bier upper_names strip_plain
      dispatch_def safe_edit_message_def Let_def)

text \<open>
  The claim C9 as stated fails when the transport times out on the first status edit: the
  model always sends a directive, and the loop ends after one call of the model.
\<close>

theorem agent_loop_step_budget_counterexample:
  "backend timeout_env 0 [] = Inr ''ACTION: SEARCH bier''
   \<and> action_search (strip ''ACTION: SEARCH bier'') = Some (''SEARCH'', ''bier'')
   \<and> model_trace (snd (handle_message timeout_env (Some private_hi) empty_world))
       = [Inr ''ACTION: SEARCH bier'']
   \<and> outbox (snd (handle_message timeout_env (Some private_hi) empty_world))
       = [Sent 42 status_moment]"
  by (simp add: handle_message_def private_hi_def is_direct_def strip_plain
      send_message_def timeout_env_loop timeout_env_wire final_reply_fixed deliver_def
      safe_edit_message_def empty_world_def Let_def action_search_bier log_error_def,
      simp add: timeout_env_def example_env_def)

text \<open>
  C4, as the code has it. A text message that is not admitted (not in a private chat, not
  a reply to a message of the bot, not mentioning the bot) produces no outbound message and
  leaves the conversation memory, the jobs and the log as they are, but it does change the
  state: the chat of the weekly announcement is set to the chat of the message, as it is
  for every text message, before the filter is applied.
\<close>

theorem ignored_message_frame:
  assumes "message_text m = Some raw" and "raw \<noteq> []" and "chat m \<noteq> PRIVATE"
    and "\<forall>r. reply_to_message m = Some r \<longrightarrow> from_user_id r \<noteq> Some (bot_id E)"
    and "\<not> contains (''@'' @ bot_username E) (strip raw)"
  shows "snd (handle_message E (Some m) w) = w\<lparr>ANNOUNCE_CHAT_ID := Some (chat_ident m)\<rparr>
    \<and> outbox (snd (handle_message E (Some m) w)) = outbox w
    \<and> session_memory (snd (handle_message E (Some m) w)) = session_memory w
    \<and> jobs (snd (handle_message E (Some m) w)) = jobs w"
proof -
  have "is_direct E m (strip raw) = Inr False \<or> is_direct E m (strip raw) = Inl AttributeError"
    using assms(3-5) by (auto simp: is_direct_def split: option.splits)
  then have "snd (handle_message E (Some m) w) = w\<lparr>ANNOUNCE_CHAT_ID := Some (chat_ident m)\<rparr>"
    using assms(1,2) by (auto simp: handle_message_def Let_def)
  then show ?thesis by simp
qed

theorem ignored_message_frame_witness:
  "snd (handle_message calc_env (Some group_hello) empty_world)
     = empty_world\<lparr>ANNOUNCE_CHAT_ID := Some 42\<rparr>
   \<and> outbox (snd (handle_message calc_env (Some group_hello) empty_world)) = []"
proof -
  have a: "message_text group_hello = Some ''hello''" "''hello'' \<noteq> []"
    "chat group_hello \<noteq> PRIVATE"
    "\<forall>r. reply_to_message group_hello = Some r \<longrightarrow> from_user_id r \<noteq> Some (bot_id calc_env)"
    by (simp_all add: group_hello_def)
  have b: "\<not> contains (''@'' @ bot_username calc_env) (strip ''hello'')"
    by (simp add: calc_env_def example_env_def strip_plain)
  from ignored_message_frame [OF a b, of empty_world]
  show ?thesis by (simp add: group_hello_def empty_world_def)
qed

text \<open>
  The claim C4 as stated fails for a group message that does not address the bot: the
  handler changes the chat of the weekly announcement.
\<close>

theorem ignored_message_announce_counterexample:
  "is_direct calc_env group_hello (strip ''hello'') = Inr False
   \<and> ANNOUNCE_CHAT_ID empty_world = None
   \<and> ANNOUNCE_CHAT_ID (snd (handle_message calc_env (Some group_hello) empty_world)) = Some 42"
proof -
  have d: "is_direct calc_env group_hello (strip ''hello'') = Inr False"
    by (simp add: is_direct_def group_hello_def calc_env_def example_env_def strip_plain)
  have "handle_message calc_env (Some group_hello) empty_world
          = (None, empty_world\<lparr>ANNOUNCE_CHAT_ID := Some 42\<rparr>)"
    using d by (simp add: handle_message_def group_hello_def Let_def)
  with d show ?thesis by (simp add: empty_world_def)
qed

lemma gone_env_wire:
  "transport gone_env 0 = Delivered 7"
  "transport gone_env (Suc k) = BadRequest ''Message to edit not found''"
  "backend gone_env k ms = Inr ''hallo''"
  by (simp_all add: gone_env_def example_env_def)

lemma flaky_env_wire:
  "transport flaky_env 0 = Delivered 7"
  "transport flaky_env (Suc 0) = TransportError ''Timed out''"
  "transport flaky_env (Suc (Suc 0)) = Delivered 9"
  "backend flaky_env k ms = Inr ''hallo''"
  by (simp_all add: flaky_env_def example_env_def)

lemma final_reply_hallo: "final_reply_of (Inr ''hallo'') = ''hallo''"
  by (simp add: final_reply_of_def)

lemma replace_hallo: "strip (replace ''FINAL ANSWER:'' [] ''hallo'') = ''hallo''"
  by (simp add: strip_def is_space_def)

lemma not_modified_gone: "\<not> contains ''Message is not modified'' ''Message to edit not found''"
  by simp

lemma plain_answer_loop:
  assumes "backend E 0 ms = Inr ''hallo''"
  shows "agent_loop E cid mid MAX_STEPS 0 fr ms w
           = (Inr ''hallo'', w\<lparr>model_trace := model_trace w @ [Inr ''hallo'']\<rparr>)"
proof -
  have "action_search (strip ''hallo'') = None"
    by (rule action_hallo)
  then show ?thesis
    using assms replace_hallo
    by (simp add: MAX_STEPS_def eval_nat_numeral strip_plain del: action_search.simps)
qed

lemma gone_env_run:
  "handle_message gone_env (Some private_hi) empty_world =
     (None,
      \<lparr>session_memory =
          update_memory (update_memory Map.empty 42 ''user'' ''hi'') 42 ''assistant'' ''hallo'',
        ANNOUNCE_CHAT_ID = Some 42, jobs = [], outbox = [Sent 42 status_moment],
        logged = [EditFailed ''Message to edit not found''],
        model_trace = [Inr ''hallo''], transport_calls = 2\<rparr>)"
  by (simp add: handle_message_def private_hi_def is_direct_def strip_plain send_message_def
      plain_answer_loop final_reply_hallo deliver_def safe_edit_message_def empty_world_def
      Let_def gone_env_wire not_modified_gone log_error_def del: contains.simps)

lemma flaky_env_run:
  "handle_message flaky_env (Some private_hi) empty_world =
     (None,
      \<lparr>session_memory = update_memory Map.empty 42 ''user'' ''hi'',
        ANNOUNCE_CHAT_ID = Some 42, jobs = [],
        outbox = [Sent 42 status_moment, Sent 42 ''hallo''],
        logged = [], model_trace = [Inr ''hallo''], transport_calls = 3\<rparr>)"
  by (simp add: handle_message_def private_hi_def is_direct_def strip_plain send_message_def
      plain_answer_loop final_reply_hallo deliver_def safe_edit_message_def empty_world_def
      Let_def flaky_env_wire numeral_2_eq_2 numeral_3_eq_3 log_error_def)

text \<open>
  C6. When the final edit of the status message raises \<^verbatim>\<open>BadRequest\<close> with a text other
  than \<^verbatim>\<open>Message is not modified\<close>, \<^verbatim>\<open>safe_edit_message\<close> logs a warning and returns, so
  the fallback of the handler never runs: the only message delivered is the status
  message, and the reply \<^verbatim>\<open>hallo\<close> is recorded in the memory but reaches nobody. When the
  edit fails with an error that is not a \<^verbatim>\<open>BadRequest\<close> the fallback does send the
  reply.
\<close>

theorem final_edit_bad_request_undelivered:
  "fst (handle_message gone_env (Some private_hi) empty_world) = None
   \<and> outbox (snd (handle_message gone_env (Some private_hi) empty_world))
       = [Sent 42 status_moment]
   \<and> logged (snd (handle_message gone_env (Some private_hi) empty_world))
       = [EditFailed ''Message to edit not found'']
   \<and> get_memory (session_memory (snd (handle_message gone_env (Some private_hi) empty_world))) 42
       = [\<lparr>role = ''user'', content = ''hi''\<rparr>, \<lparr>role = ''assistant'', content = ''hallo''\<rparr>]
   \<and> outbox (snd (handle_message flaky_env (Some private_hi) empty_world))
       = [Sent 42 status_moment, Sent 42 ''hallo'']"
  by (simp add: gone_env_run flaky_env_run update_memory_def get_memory_def deque_append_def)

end
